theory Spec2Isabelle
  imports Main "HOL-Library.Word" "HOL-Library.List_Lexorder" "HOL-Library.Product_Lexorder"
begin

unbundle bit_operations_syntax

section \<open>Host values\<close>

text \<open>
  A Ruby \<^verbatim>\<open>VALUE\<close> as the extension sees it through \<^verbatim>\<open>TYPE(obj)\<close>.  Arrays and
  hashes are references into the host's object space (two references are the same
  object iff they carry the same address), so that shared and cyclic structures can
  be written down.  Every other object is opaque to the extension and is known only
  through the capabilities that \<^verbatim>\<open>object_dumper.c\<close> probes: whether it is a
  \<^verbatim>\<open>Time\<close>, \<^verbatim>\<open>Date\<close> or \<^verbatim>\<open>DateTime\<close>, and what \<^verbatim>\<open>iso8601\<close>,
  \<^verbatim>\<open>xmlschema\<close> and \<^verbatim>\<open>as_json\<close> return (\<open>None\<close>: the object does not respond
  to the method).  A double is its IEEE-754 binary64 bit pattern.
\<close>

type_synonym objid = nat
type_synonym double = "64 word"

datatype VALUE =
    Qnil
  | Qtrue
  | Qfalse
  | Integer int
  | Float double
  | String string
  | Symbol string
  | Array objid
  | Hash objid
  | Object (is_time_like: bool) (iso8601: "string option") (xmlschema: "string option")
      (as_json: "VALUE option")

definition NIL_P :: "VALUE \<Rightarrow> bool" where
  "NIL_P v = (v = Qnil)"

definition RTEST :: "VALUE \<Rightarrow> bool" where
  "RTEST v = (v \<noteq> Qnil \<and> v \<noteq> Qfalse)"

text \<open>
  A Ruby \<^verbatim>\<open>Hash\<close> keeps its pairs in insertion order; \<^verbatim>\<open>rb_hash_aref\<close> answers
  \<^verbatim>\<open>nil\<close> for a key that is not there.
\<close>

type_synonym rb_hash = "(VALUE \<times> VALUE) list"

definition rb_hash_aref :: "rb_hash \<Rightarrow> VALUE \<Rightarrow> VALUE" where
  "rb_hash_aref h k = (case map_of h k of None \<Rightarrow> Qnil | Some v \<Rightarrow> v)"

definition RHASH_EMPTY_P :: "rb_hash \<Rightarrow> bool" where
  "RHASH_EMPTY_P h = (h = [])"

section \<open>Errors\<close>

text \<open>
  Every \<^verbatim>\<open>rb_raise\<close> of the sources is a value.  The three
  \<^verbatim>\<open>eGenerateError\<close> raises of \<^verbatim>\<open>object_dumper.c\<close> and the one of
  \<^verbatim>\<open>writer.c\<close> that the model reaches are told apart; \<open>RangeError\<close> and
  \<open>TypeError\<close> are what the conversions \<^verbatim>\<open>NUM2LL\<close> and \<^verbatim>\<open>NUM2INT\<close> of the
  Ruby API raise.
\<close>

datatype generate_error =
    NestingTooDeep int
  | CircularReference
  | NaNNotAllowed
  | FailedToWrite

datatype error =
    GenerateError generate_error
  | RangeError
  | TypeError

section \<open>Modes and options (common.h, value\_builder.h, object\_dumper.h)\<close>

datatype yyjson_mode_t = MODE_STRICT | MODE_COMPAT | MODE_RAILS | MODE_OBJECT | MODE_CUSTOM

record yyjson_parse_options =
  symbolize_names :: bool
  freeze :: bool
  allow_nan :: bool
  allow_comments :: bool
  max_nesting :: int
  mode :: yyjson_mode_t

record yyjson_dump_options =
  pretty :: bool
  escape_slash :: bool
  allow_nan :: bool
  escape_html :: bool
  indent :: int
  mode :: yyjson_mode_t

text \<open>
  \<^verbatim>\<open>NUM2INT\<close> belongs to the Ruby API, not to this repository: the extractors take
  it as the parameter \<open>num2int\<close>, which either raises or yields a C \<^verbatim>\<open>int\<close>.
\<close>

type_synonym num2int_t = "VALUE \<Rightarrow> error + int"

subsection \<open>parser.c: yyjson\_extract\_parse\_options\<close>

definition yyjson_extract_parse_options ::
  "num2int_t \<Rightarrow> rb_hash option \<Rightarrow> error + yyjson_parse_options" where
  "yyjson_extract_parse_options num2int opts_hash =
    (let opts = \<lparr> symbolize_names = False, freeze = False,
                   yyjson_parse_options.allow_nan = True, allow_comments = True,
                   max_nesting = 100, yyjson_parse_options.mode = MODE_COMPAT \<rparr>
     in case opts_hash of
          None \<Rightarrow> Inr opts
        | Some h \<Rightarrow>
           (let val = rb_hash_aref h (Symbol ''mode'');
                opts = (case val of
                          Symbol mode_id \<Rightarrow>
                            if mode_id = ''strict'' then
                              opts\<lparr> yyjson_parse_options.mode := MODE_STRICT,
                                    yyjson_parse_options.allow_nan := False,
                                    allow_comments := False,
                                    symbolize_names := False \<rparr>
                            else if mode_id = ''compat'' then
                              opts\<lparr> yyjson_parse_options.mode := MODE_COMPAT \<rparr>
                            else if mode_id = ''rails'' then
                              opts\<lparr> yyjson_parse_options.mode := MODE_RAILS,
                                    symbolize_names := True,
                                    yyjson_parse_options.allow_nan := True,
                                    allow_comments := True \<rparr>
                            else if mode_id = ''object'' then
                              opts\<lparr> yyjson_parse_options.mode := MODE_OBJECT \<rparr>
                            else if mode_id = ''custom'' then
                              opts\<lparr> yyjson_parse_options.mode := MODE_CUSTOM \<rparr>
                            else opts
                        | _ \<Rightarrow> opts);
                val = rb_hash_aref h (Symbol ''symbolize_names'');
                opts = (if \<not> NIL_P val then opts\<lparr> symbolize_names := RTEST val \<rparr> else opts);
                val = rb_hash_aref h (Symbol ''freeze'');
                opts = (if \<not> NIL_P val then opts\<lparr> freeze := RTEST val \<rparr> else opts);
                val = rb_hash_aref h (Symbol ''allow_nan'');
                opts = (if \<not> NIL_P val
                        then opts\<lparr> yyjson_parse_options.allow_nan := RTEST val \<rparr> else opts);
                val = rb_hash_aref h (Symbol ''allow_comments'');
                opts = (if \<not> NIL_P val then opts\<lparr> allow_comments := RTEST val \<rparr> else opts);
                val = rb_hash_aref h (Symbol ''max_nesting'')
            in if \<not> NIL_P val
               then (case num2int val of
                       Inl e \<Rightarrow> Inl e
                     | Inr n \<Rightarrow> Inr (opts\<lparr> max_nesting := n \<rparr>))
               else Inr opts))"

subsection \<open>writer.c: yyjson\_extract\_dump\_options\<close>

text \<open>
  The statements run in the order of the source: \<^verbatim>\<open>pretty\<close>, \<^verbatim>\<open>indent\<close>,
  \<^verbatim>\<open>escape_slash\<close>, \<^verbatim>\<open>allow_nan\<close>, then the mode, then \<^verbatim>\<open>escape_html\<close>.
  The field \<^verbatim>\<open>temp_obj\<close> of the C struct is scratch space of \<^verbatim>\<open>dump_hash\<close>
  and is not an option.
\<close>

definition yyjson_extract_dump_options ::
  "num2int_t \<Rightarrow> rb_hash option \<Rightarrow> error + yyjson_dump_options" where
  "yyjson_extract_dump_options num2int opts_hash =
    (let opts = \<lparr> pretty = False, escape_slash = False, allow_nan = True,
                   escape_html = False, indent = 2, mode = MODE_COMPAT \<rparr>
     in case opts_hash of
          None \<Rightarrow> Inr opts
        | Some h \<Rightarrow>
           (let val = rb_hash_aref h (Symbol ''pretty'');
                opts = (if \<not> NIL_P val then opts\<lparr> pretty := RTEST val \<rparr> else opts);
                val = rb_hash_aref h (Symbol ''indent'')
            in case (if \<not> NIL_P val
                     then (case num2int val of
                             Inl e \<Rightarrow> Inl e
                           | Inr n \<Rightarrow>
                               (let opts = opts\<lparr> indent := n \<rparr>
                                in Inr (if 0 < indent opts then opts\<lparr> pretty := True \<rparr>
                                        else opts)))
                     else Inr opts) of
                 Inl e \<Rightarrow> Inl e
               | Inr opts \<Rightarrow>
                  (let val = rb_hash_aref h (Symbol ''escape_slash'');
                       opts = (if \<not> NIL_P val then opts\<lparr> escape_slash := RTEST val \<rparr>
                               else opts);
                       val = rb_hash_aref h (Symbol ''allow_nan'');
                       opts = (if \<not> NIL_P val then opts\<lparr> allow_nan := RTEST val \<rparr>
                               else opts);
                       val = rb_hash_aref h (Symbol ''mode'');
                       opts = (case val of
                                 Symbol mode_id \<Rightarrow>
                                   if mode_id = ''strict'' then
                                     opts\<lparr> mode := MODE_STRICT, allow_nan := False,
                                           escape_slash := True \<rparr>
                                   else if mode_id = ''compat'' then
                                     opts\<lparr> mode := MODE_COMPAT \<rparr>
                                   else if mode_id = ''rails'' then
                                     opts\<lparr> mode := MODE_RAILS, escape_html := True \<rparr>
                                   else if mode_id = ''object'' then
                                     opts\<lparr> mode := MODE_OBJECT \<rparr>
                                   else opts
                               | _ \<Rightarrow> opts);
                       val = rb_hash_aref h (Symbol ''escape_html'')
                   in Inr (if \<not> NIL_P val then opts\<lparr> escape_html := RTEST val \<rparr>
                           else opts))))"

subsection \<open>yyjson\_ext.c: the default parse options and yyjson\_load\<close>

definition default_parse_opts :: yyjson_parse_options where
  "default_parse_opts =
     \<lparr> symbolize_names = False, freeze = False,
       yyjson_parse_options.allow_nan = True, allow_comments = True,
       max_nesting = 100, yyjson_parse_options.mode = MODE_COMPAT \<rparr>"

text \<open>
  \<^verbatim>\<open>yyjson_parse_string\<close> hands the text to the codec engine, which is outside this
  repository: \<open>parse_string\<close> stands for it, a function of the source text and the
  resolved options.
\<close>

definition yyjson_load ::
  "('src \<Rightarrow> yyjson_parse_options \<Rightarrow> error + 'res) \<Rightarrow> num2int_t \<Rightarrow>
     'src \<Rightarrow> rb_hash option \<Rightarrow> error + 'res" where
  "yyjson_load parse_string num2int source opts =
    (if (case opts of None \<Rightarrow> True | Some h \<Rightarrow> RHASH_EMPTY_P h)
     then parse_string source default_parse_opts
     else (case yyjson_extract_parse_options num2int opts of
             Inl e \<Rightarrow> Inl e
           | Inr parse_opts \<Rightarrow> parse_string source parse_opts))"

text \<open>
  The general path of \<^verbatim>\<open>yyjson_load\<close> alone (its last three statements), which is
  also what \<^verbatim>\<open>yyjson_load_file\<close> does with every options hash.
\<close>

definition load_general_path ::
  "('src \<Rightarrow> yyjson_parse_options \<Rightarrow> error + 'res) \<Rightarrow> num2int_t \<Rightarrow>
     'src \<Rightarrow> rb_hash option \<Rightarrow> error + 'res" where
  "load_general_path parse_string num2int source opts =
    (case yyjson_extract_parse_options num2int opts of
       Inl e \<Rightarrow> Inl e
     | Inr parse_opts \<Rightarrow> parse_string source parse_opts)"

section \<open>HTML escaping and the writer (writer.c)\<close>

text \<open>
  \<^verbatim>\<open>escape_html_entities\<close> walks the text twice.  The first loop counts the bytes
  to escape; with none, the text is copied as it is.  Otherwise the second loop
  writes into a buffer of \<open>len + 5 * escape_count\<close> bytes, through the cursor
  \<open>dst\<close>.  \<^verbatim>\<open>malloc\<close> is taken to succeed.
\<close>

definition u003c :: string where "u003c = CHR 0x5C # ''u003c''"
definition u003e :: string where "u003e = CHR 0x5C # ''u003e''"
definition u0026 :: string where "u0026 = CHR 0x5C # ''u0026''"
definition u0027 :: string where "u0027 = CHR 0x5C # ''u0027''"

fun count_pass :: "string \<Rightarrow> nat \<Rightarrow> nat" where
  "count_pass [] escape_count = escape_count"
| "count_pass (c # p) escape_count =
     count_pass p
       (if c = CHR ''<'' \<or> c = CHR ''>'' \<or> c = CHR ''&'' \<or> c = CHR 0x27
        then escape_count + 1 else escape_count)"

fun copy_pass :: "string \<Rightarrow> string \<Rightarrow> string" where
  "copy_pass [] dst = dst"
| "copy_pass (c # src) dst =
     copy_pass src
       (if c = CHR ''<'' then dst @ u003c
        else if c = CHR ''>'' then dst @ u003e
        else if c = CHR ''&'' then dst @ u0026
        else if c = CHR 0x27 then dst @ u0027
        else dst @ [c])"

definition escape_html_entities :: "string \<Rightarrow> string" where
  "escape_html_entities json =
     (let escape_count = count_pass json 0
      in if escape_count = 0 then json else copy_pass json [])"

text \<open>
  The same rewriting in the words of the specification: every byte on its own, in
  order, the four bytes replaced by their escape sequence.
\<close>

definition html_escape_byte :: "char \<Rightarrow> string" where
  "html_escape_byte c =
     (if c = CHR ''<'' then u003c
      else if c = CHR ''>'' then u003e
      else if c = CHR ''&'' then u0026
      else if c = CHR 0x27 then u0027
      else [c])"

definition spec_escape_html :: "string \<Rightarrow> string" where
  "spec_escape_html json = concat (map html_escape_byte json)"

section \<open>The exporter (object\_dumper.c)\<close>

text \<open>The node tree that the exporter builds through the engine's \<^verbatim>\<open>yyjson_mut_*\<close>.\<close>

datatype yyjson_mut_val =
    JNull
  | JTrue
  | JFalse
  | JSint int
  | JReal double
  | JStr string
  | JArr "yyjson_mut_val list"
  | JObj "(string \<times> yyjson_mut_val) list"

text \<open>
  The host's object space, as far as the exporter reads it: the elements of the
  array at an address, the pairs of the hash at an address in iteration order, and
  what \<^verbatim>\<open>to_s\<close> answers for a value.
\<close>

record host =
  rb_ary :: "objid \<Rightarrow> VALUE list"
  rb_hsh :: "objid \<Rightarrow> rb_hash"
  rb_to_s :: "VALUE \<Rightarrow> string"

text \<open>
  \<^verbatim>\<open>dump_context\<close>.  The document handle is the node tree under construction and
  is returned rather than stored.  \<open>visited\<close> is the Ruby hash keyed by
  \<^verbatim>\<open>rb_obj_id\<close>, which is injective on live objects: it is the set of the
  containers that were marked.
\<close>

record dump_context =
  opts :: yyjson_dump_options
  depth :: int
  visited :: "VALUE set"

definition MAX_NESTING_DEPTH :: int where
  "MAX_NESTING_DEPTH = 100"

fun is_collection :: "VALUE \<Rightarrow> bool" where
  "is_collection (Array a) = True"
| "is_collection (Hash a) = True"
| "is_collection _ = False"

definition check_circular_reference :: "VALUE \<Rightarrow> dump_context \<Rightarrow> error + dump_context" where
  "check_circular_reference obj ctx =
     (if depth ctx > MAX_NESTING_DEPTH
      then Inl (GenerateError (NestingTooDeep (depth ctx)))
      else if \<not> is_collection obj then Inr ctx
      else if obj \<in> visited ctx then Inl (GenerateError CircularReference)
      else Inr (ctx\<lparr> visited := insert obj (visited ctx) \<rparr>))"

definition unmark_visited :: "VALUE \<Rightarrow> dump_context \<Rightarrow> dump_context" where
  "unmark_visited obj ctx =
     (if \<not> is_collection obj then ctx
      else ctx\<lparr> visited := visited ctx - {obj} \<rparr>)"

text \<open>
  Strings are taken to be UTF-8 already, so \<^verbatim>\<open>rb_str_export_to_enc\<close> changes
  nothing.  \<^verbatim>\<open>yyjson_mut_str\<close> measures a symbol's name with \<^verbatim>\<open>strlen\<close>.
\<close>

definition dump_string :: "string \<Rightarrow> yyjson_mut_val" where
  "dump_string str = JStr str"

definition dump_symbol :: "string \<Rightarrow> yyjson_mut_val" where
  "dump_symbol name = JStr (takeWhile (\<lambda>c. c \<noteq> CHR 0x00) name)"

text \<open>
  A fixnum has 63 bits; a bignum goes through \<^verbatim>\<open>NUM2LL\<close>, which raises
  \<open>RangeError\<close> outside the 64-bit signed range.
\<close>

definition dump_integer :: "int \<Rightarrow> error + yyjson_mut_val" where
  "dump_integer num =
     (if - (2 ^ 62) \<le> num \<and> num < 2 ^ 62 then Inr (JSint num)
      else if - (2 ^ 63) \<le> num \<and> num < 2 ^ 63 then Inr (JSint num)
      else Inl RangeError)"

text \<open>\<^verbatim>\<open>isinf\<close> and \<^verbatim>\<open>isnan\<close> of \<^verbatim>\<open>math.h\<close>, on the bit pattern.\<close>

definition isinf :: "double \<Rightarrow> bool" where
  "isinf d = (d AND 0x7FFFFFFFFFFFFFFF = 0x7FF0000000000000)"

definition isnan :: "double \<Rightarrow> bool" where
  "isnan d = (0x7FF0000000000000 < d AND 0x7FFFFFFFFFFFFFFF)"

definition dump_float :: "double \<Rightarrow> dump_context \<Rightarrow> error + yyjson_mut_val" where
  "dump_float val ctx =
     (if (isinf val \<or> isnan val) \<and> \<not> allow_nan (opts ctx)
      then Inl (GenerateError NaNNotAllowed)
      else Inr (JReal val))"

fun is_basic_json_type :: "VALUE \<Rightarrow> bool" where
  "is_basic_json_type (Object t i x aj) = False"
| "is_basic_json_type _ = True"

fun dump_time :: "host \<Rightarrow> VALUE \<Rightarrow> yyjson_mut_val" where
  "dump_time h (Object t (Some str) x aj) = dump_string str"
| "dump_time h (Object t None (Some str) aj) = dump_string str"
| "dump_time h obj = dump_string (rb_to_s h obj)"

definition try_as_json :: "VALUE \<Rightarrow> dump_context \<Rightarrow> VALUE" where
  "try_as_json obj ctx =
     (if mode (opts ctx) = MODE_COMPAT \<and> is_basic_json_type obj then Qnil
      else if mode (opts ctx) = MODE_RAILS \<and> is_basic_json_type obj then Qnil
      else (case obj of
              Object t i x (Some result) \<Rightarrow> result
            | _ \<Rightarrow> Qnil))"

text \<open>The key conversion at the head of \<^verbatim>\<open>dump_hash_iter\<close>.\<close>

fun hash_key_str :: "host \<Rightarrow> VALUE \<Rightarrow> string" where
  "hash_key_str h (String s) = s"
| "hash_key_str h (Symbol s) = s"
| "hash_key_str h key = rb_to_s h key"

text \<open>
  The recursive core.  Every function takes the context and, when it returns
  normally, hands back the context as it left it; a raise is \<open>Inl\<close> and drops the
  context, as the \<^verbatim>\<open>longjmp\<close> out of \<^verbatim>\<open>yyjson_dump_ruby_object\<close> does.
  \<open>dump_array_loop\<close> is the \<^verbatim>\<open>for\<close> loop of \<^verbatim>\<open>dump_array\<close> over the elements
  still to come, \<open>arr\<close> the JSON array so far; \<open>rb_hash_foreach\<close> calls
  \<open>dump_hash_iter\<close> on the pairs still to come, \<open>obj\<close> being the JSON object that
  the C code keeps in \<^verbatim>\<open>temp_obj\<close>.
\<close>

function
  dump_ruby_object ::
    "host \<Rightarrow> VALUE \<Rightarrow> dump_context \<Rightarrow> error + yyjson_mut_val \<times> dump_context" and
  dump_array ::
    "host \<Rightarrow> VALUE \<Rightarrow> dump_context \<Rightarrow> error + yyjson_mut_val \<times> dump_context" and
  dump_array_loop ::
    "host \<Rightarrow> VALUE list \<Rightarrow> yyjson_mut_val list \<Rightarrow> dump_context \<Rightarrow>
       error + yyjson_mut_val list \<times> dump_context" and
  dump_hash ::
    "host \<Rightarrow> VALUE \<Rightarrow> dump_context \<Rightarrow> error + yyjson_mut_val \<times> dump_context" and
  rb_hash_foreach ::
    "host \<Rightarrow> rb_hash \<Rightarrow> (string \<times> yyjson_mut_val) list \<Rightarrow> dump_context \<Rightarrow>
       error + (string \<times> yyjson_mut_val) list \<times> dump_context" and
  dump_hash_iter ::
    "host \<Rightarrow> VALUE \<Rightarrow> VALUE \<Rightarrow> (string \<times> yyjson_mut_val) list \<Rightarrow> dump_context \<Rightarrow>
       error + (string \<times> yyjson_mut_val) list \<times> dump_context"
where
  "dump_ruby_object h Qnil ctx = Inr (JNull, ctx)"
| "dump_ruby_object h Qtrue ctx = Inr (JTrue, ctx)"
| "dump_ruby_object h Qfalse ctx = Inr (JFalse, ctx)"
| "dump_ruby_object h (Integer n) ctx =
     (case dump_integer n of Inl e \<Rightarrow> Inl e | Inr v \<Rightarrow> Inr (v, ctx))"
| "dump_ruby_object h (Float d) ctx =
     (case dump_float d ctx of Inl e \<Rightarrow> Inl e | Inr v \<Rightarrow> Inr (v, ctx))"
| "dump_ruby_object h (String s) ctx = Inr (dump_string s, ctx)"
| "dump_ruby_object h (Symbol s) ctx = Inr (dump_symbol s, ctx)"
| "dump_ruby_object h (Array a) ctx = dump_array h (Array a) ctx"
| "dump_ruby_object h (Hash a) ctx = dump_hash h (Hash a) ctx"
| "dump_ruby_object h (Object t i x aj) ctx =
     (if is_time_like (Object t i x aj) then Inr (dump_time h (Object t i x aj), ctx)
      else (let as_json_result = try_as_json (Object t i x aj) ctx
            in if \<not> NIL_P as_json_result then dump_ruby_object h as_json_result ctx
               else Inr (dump_string (rb_to_s h (Object t i x aj)), ctx)))"
| "dump_array h ary ctx =
     (case check_circular_reference ary ctx of
        Inl e \<Rightarrow> Inl e
      | Inr ctx \<Rightarrow>
         (case dump_array_loop h (case ary of Array a \<Rightarrow> rb_ary h a | _ \<Rightarrow> []) []
                 (ctx\<lparr> depth := depth ctx + 1 \<rparr>) of
            Inl e \<Rightarrow> Inl e
          | Inr (arr, ctx) \<Rightarrow>
              Inr (JArr arr, unmark_visited ary (ctx\<lparr> depth := depth ctx - 1 \<rparr>))))"
| "dump_array_loop h [] arr ctx = Inr (arr, ctx)"
| "dump_array_loop h (item # items) arr ctx =
     (case dump_ruby_object h item ctx of
        Inl e \<Rightarrow> Inl e
      | Inr (json_val, ctx) \<Rightarrow> dump_array_loop h items (arr @ [json_val]) ctx)"
| "dump_hash h hash ctx =
     (case check_circular_reference hash ctx of
        Inl e \<Rightarrow> Inl e
      | Inr ctx \<Rightarrow>
         (case rb_hash_foreach h (case hash of Hash a \<Rightarrow> rb_hsh h a | _ \<Rightarrow> []) []
                 (ctx\<lparr> depth := depth ctx + 1 \<rparr>) of
            Inl e \<Rightarrow> Inl e
          | Inr (obj, ctx) \<Rightarrow>
              Inr (JObj obj, unmark_visited hash (ctx\<lparr> depth := depth ctx - 1 \<rparr>))))"
| "rb_hash_foreach h [] obj ctx = Inr (obj, ctx)"
| "rb_hash_foreach h ((key, val) # rest) obj ctx =
     (case dump_hash_iter h key val obj ctx of
        Inl e \<Rightarrow> Inl e
      | Inr (obj, ctx) \<Rightarrow> rb_hash_foreach h rest obj ctx)"
| "dump_hash_iter h key val obj ctx =
     (let key_str = hash_key_str h key
      in case dump_ruby_object h val ctx of
           Inl e \<Rightarrow> Inl e
         | Inr (json_val, ctx) \<Rightarrow> Inr (obj @ [(key_str, json_val)], ctx))"
  by pat_completeness auto

text \<open>
  Termination.  A container is entered only at a depth of at most 100 and its
  elements are exported one level deeper, so \<open>101 - depth\<close> decreases; on one
  level, the elements of a list and the result of \<^verbatim>\<open>as_json\<close> are smaller than
  what they come from.  The loops go on with the context that the export of an
  element returned, whose depth is that of the context it was given.
\<close>

lemma check_circular_reference_depth:
  "check_circular_reference v ctx = Inr c \<Longrightarrow> depth c = depth ctx"
  by (auto simp: check_circular_reference_def split: if_splits)

lemma unmark_visited_depth [simp]: "depth (unmark_visited v ctx) = depth ctx"
  by (simp add: unmark_visited_def)

definition depth_kept :: "dump_context \<Rightarrow> error + 'a \<times> dump_context \<Rightarrow> bool" where
  "depth_kept ctx r = (case r of Inl e \<Rightarrow> True | Inr (n, c) \<Rightarrow> depth c = depth ctx)"

lemma depth_kept_simps [simp]:
  "depth_kept ctx (Inl e) = True"
  "depth_kept ctx (Inr (n, c)) = (depth c = depth ctx)"
  by (simp_all add: depth_kept_def)

lemma dump_depth_dom:
  "dump_ruby_object_dump_array_dump_array_loop_dump_hash_rb_hash_foreach_dump_hash_iter_dom
     (Inl (Inl (h, v, ctx))) \<Longrightarrow> depth_kept ctx (dump_ruby_object h v ctx)"
  "dump_ruby_object_dump_array_dump_array_loop_dump_hash_rb_hash_foreach_dump_hash_iter_dom
     (Inl (Inr (Inl (h, a, ctx)))) \<Longrightarrow> depth_kept ctx (dump_array h a ctx)"
  "dump_ruby_object_dump_array_dump_array_loop_dump_hash_rb_hash_foreach_dump_hash_iter_dom
     (Inl (Inr (Inr (h, items, arr, ctx)))) \<Longrightarrow> depth_kept ctx (dump_array_loop h items arr ctx)"
  "dump_ruby_object_dump_array_dump_array_loop_dump_hash_rb_hash_foreach_dump_hash_iter_dom
     (Inr (Inl (h, hs, ctx))) \<Longrightarrow> depth_kept ctx (dump_hash h hs ctx)"
  "dump_ruby_object_dump_array_dump_array_loop_dump_hash_rb_hash_foreach_dump_hash_iter_dom
     (Inr (Inr (Inl (h, ps, ob, ctx)))) \<Longrightarrow> depth_kept ctx (rb_hash_foreach h ps ob ctx)"
  "dump_ruby_object_dump_array_dump_array_loop_dump_hash_rb_hash_foreach_dump_hash_iter_dom
     (Inr (Inr (Inr (h, k, vl, ob, ctx)))) \<Longrightarrow> depth_kept ctx (dump_hash_iter h k vl ob ctx)"
proof (induct
    rule: dump_ruby_object_dump_array_dump_array_loop_dump_hash_rb_hash_foreach_dump_hash_iter.pinduct)
  case (1 h ctx)
  then show ?case by (simp add: dump_ruby_object.psimps)
next
  case (2 h ctx)
  then show ?case by (simp add: dump_ruby_object.psimps)
next
  case (3 h ctx)
  then show ?case by (simp add: dump_ruby_object.psimps)
next
  case (4 h n ctx)
  then show ?case by (simp add: dump_ruby_object.psimps split: sum.split)
next
  case (5 h d ctx)
  then show ?case by (simp add: dump_ruby_object.psimps split: sum.split)
next
  case (6 h s ctx)
  then show ?case by (simp add: dump_ruby_object.psimps)
next
  case (7 h s ctx)
  then show ?case by (simp add: dump_ruby_object.psimps)
next
  case (8 h a ctx)
  then show ?case by (simp add: dump_ruby_object.psimps)
next
  case (9 h a ctx)
  then show ?case by (simp add: dump_ruby_object.psimps)
next
  case (10 h t i x aj ctx)
  then show ?case by (simp add: dump_ruby_object.psimps Let_def)
next
  case (11 h ary ctx)
  show ?case
  proof (cases "check_circular_reference ary ctx")
    case (Inl e)
    with 11(1) show ?thesis by (simp add: dump_array.psimps)
  next
    case (Inr b)
    from Inr have d: "depth b = depth ctx" by (rule check_circular_reference_depth)
    show ?thesis
    proof (cases "dump_array_loop h (case ary of Array a \<Rightarrow> rb_ary h a | _ \<Rightarrow> []) [] (b\<lparr> depth := depth b + 1 \<rparr>)")
      case (Inl e)
      with 11(1) Inr show ?thesis by (simp add: dump_array.psimps)
    next
      case loop: (Inr p)
      obtain r c where p: "p = (r, c)" by (cases p)
      from 11(2) [OF Inr] loop p have "depth c = depth b + 1" by simp
      with d 11(1) Inr loop p show ?thesis by (simp add: dump_array.psimps)
    qed
  qed
next
  case (12 h arr ctx)
  then show ?case by (simp add: dump_array_loop.psimps)
next
  case (13 h item items arr ctx)
  show ?case
  proof (cases "dump_ruby_object h item ctx")
    case (Inl e)
    with 13(1) show ?thesis by (simp add: dump_array_loop.psimps)
  next
    case (Inr b)
    obtain x y where b: "b = (x, y)" by (cases b)
    from 13(2) Inr b have "depth y = depth ctx" by simp
    moreover from 13(3) [OF Inr b [symmetric]]
    have "depth_kept y (dump_array_loop h items (arr @ [x]) y)" .
    ultimately show ?thesis using 13(1) Inr b
      by (auto simp: dump_array_loop.psimps depth_kept_def split: sum.splits prod.splits)
  qed
next
  case (14 h hs ctx)
  show ?case
  proof (cases "check_circular_reference hs ctx")
    case (Inl e)
    with 14(1) show ?thesis by (simp add: dump_hash.psimps)
  next
    case (Inr b)
    from Inr have d: "depth b = depth ctx" by (rule check_circular_reference_depth)
    show ?thesis
    proof (cases "rb_hash_foreach h (case hs of Hash a \<Rightarrow> rb_hsh h a | _ \<Rightarrow> []) [] (b\<lparr> depth := depth b + 1 \<rparr>)")
      case (Inl e)
      with 14(1) Inr show ?thesis by (simp add: dump_hash.psimps)
    next
      case loop: (Inr p)
      obtain r c where p: "p = (r, c)" by (cases p)
      from 14(2) [OF Inr] loop p have "depth c = depth b + 1" by simp
      with d 14(1) Inr loop p show ?thesis by (simp add: dump_hash.psimps)
    qed
  qed
next
  case (15 h ob ctx)
  then show ?case by (simp add: rb_hash_foreach.psimps)
next
  case (16 h key vl rest ob ctx)
  show ?case
  proof (cases "dump_hash_iter h key vl ob ctx")
    case (Inl e)
    with 16(1) show ?thesis by (simp add: rb_hash_foreach.psimps)
  next
    case (Inr b)
    obtain x y where b: "b = (x, y)" by (cases b)
    from 16(2) Inr b have "depth y = depth ctx" by simp
    moreover from 16(3) [OF Inr b [symmetric]]
    have "depth_kept y (rb_hash_foreach h rest x y)" .
    ultimately show ?thesis using 16(1) Inr b
      by (auto simp: rb_hash_foreach.psimps depth_kept_def split: sum.splits prod.splits)
  qed
next
  case (17 h key vl ob ctx)
  from 17(2) [OF refl] 17(1) show ?case
    by (auto simp: dump_hash_iter.psimps Let_def depth_kept_def split: sum.splits prod.splits)
qed

lemma check_circular_reference_le:
  "check_circular_reference v ctx = Inr c \<Longrightarrow> depth ctx \<le> 100"
  by (auto simp: check_circular_reference_def MAX_NESTING_DEPTH_def split: if_splits)

lemma try_as_json_size:
  "\<not> NIL_P (try_as_json (Object t i x aj) ctx) \<Longrightarrow>
     size (try_as_json (Object t i x aj) ctx) < size (Object t i x aj)"
  by (auto simp: try_as_json_def NIL_P_def split: option.splits if_splits)

termination dump_ruby_object
proof (relation "measures
    [\<lambda>x. case x of
        Inl (Inl (h, v, ctx)) \<Rightarrow> nat (101 - depth ctx)
      | Inl (Inr (Inl (h, v, ctx))) \<Rightarrow> nat (101 - depth ctx)
      | Inl (Inr (Inr (h, items, arr, ctx))) \<Rightarrow> nat (101 - depth ctx)
      | Inr (Inl (h, v, ctx)) \<Rightarrow> nat (101 - depth ctx)
      | Inr (Inr (Inl (h, ps, ob, ctx))) \<Rightarrow> nat (101 - depth ctx)
      | Inr (Inr (Inr (h, k, v, ob, ctx))) \<Rightarrow> nat (101 - depth ctx),
     \<lambda>x. case x of
        Inl (Inl (h, v, ctx)) \<Rightarrow> size v
      | Inl (Inr (Inl (h, v, ctx))) \<Rightarrow> size v
      | Inl (Inr (Inr (h, items, arr, ctx))) \<Rightarrow> size_list size items
      | Inr (Inl (h, v, ctx)) \<Rightarrow> size v
      | Inr (Inr (Inl (h, ps, ob, ctx))) \<Rightarrow> size_list (\<lambda>(k, v). Suc (size v)) ps
      | Inr (Inr (Inr (h, k, v, ob, ctx))) \<Rightarrow> size v,
     \<lambda>x. case x of
        Inl (Inl (h, v, ctx)) \<Rightarrow> 1
      | Inl (Inr (Inl (h, v, ctx))) \<Rightarrow> 0
      | Inl (Inr (Inr (h, items, arr, ctx))) \<Rightarrow> 0
      | Inr (Inl (h, v, ctx)) \<Rightarrow> 0
      | Inr (Inr (Inl (h, ps, ob, ctx))) \<Rightarrow> 0
      | Inr (Inr (Inr (h, k, v, ob, ctx))) \<Rightarrow> 2]", goal_cases)
  case 1
  show ?case by simp
next
  case 2
  show ?case by simp
next
  case 3
  show ?case by simp
next
  case (4 h t i x aj ctx xa)
  then show ?case using try_as_json_size [of t i x aj ctx] by simp
next
  case (5 h ary ctx c)
  from 5 have "depth c = depth ctx" "depth ctx \<le> 100"
    by (auto dest: check_circular_reference_depth check_circular_reference_le)
  then show ?case by simp
next
  case 6
  show ?case by simp
next
  case (7 h item items arr ctx b x y)
  from dump_depth_dom(1) [OF 7(3)] 7(1,2) have "depth y = depth ctx" by auto
  then show ?case by simp
next
  case (8 h hash ctx c)
  from 8 have "depth c = depth ctx" "depth ctx \<le> 100"
    by (auto dest: check_circular_reference_depth check_circular_reference_le)
  then show ?case by simp
next
  case 9
  show ?case by simp
next
  case (10 h key val rest ob ctx b x y)
  from dump_depth_dom(6) [OF 10(3)] 10(1,2) have "depth y = depth ctx" by auto
  then show ?case by simp
next
  case 11
  show ?case by simp
qed

definition yyjson_dump_ruby_object ::
  "host \<Rightarrow> VALUE \<Rightarrow> yyjson_dump_options \<Rightarrow> error + yyjson_mut_val" where
  "yyjson_dump_ruby_object h obj dopts =
     (case dump_ruby_object h obj \<lparr> opts = dopts, depth = 0, visited = {} \<rparr> of
        Inl e \<Rightarrow> Inl e
      | Inr (root, ctx) \<Rightarrow> Inr root)"

subsection \<open>writer.c: yyjson\_ruby\_write\_string, and yyjson\_dump of yyjson\_ext.c\<close>

text \<open>
  Serialising the node tree is the engine's work: \<open>yyjson_mut_write_opts\<close> is a
  parameter, a function of the root and the flags that answers the text or fails.
\<close>

datatype yyjson_write_flag =
    YYJSON_WRITE_PRETTY
  | YYJSON_WRITE_PRETTY_TWO_SPACES
  | YYJSON_WRITE_ESCAPE_SLASHES
  | YYJSON_WRITE_ALLOW_INF_AND_NAN

type_synonym write_opts_t = "yyjson_mut_val \<Rightarrow> yyjson_write_flag set \<Rightarrow> string option"

definition write_flags :: "yyjson_dump_options \<Rightarrow> yyjson_write_flag set" where
  "write_flags dopts =
     (let flg = {};
          flg = (if pretty dopts
                 then flg \<union> {YYJSON_WRITE_PRETTY} \<union> {YYJSON_WRITE_PRETTY_TWO_SPACES}
                 else flg);
          flg = (if escape_slash dopts then flg \<union> {YYJSON_WRITE_ESCAPE_SLASHES} else flg);
          flg = (if allow_nan dopts then flg \<union> {YYJSON_WRITE_ALLOW_INF_AND_NAN} else flg)
      in flg)"

definition yyjson_ruby_write_string ::
  "write_opts_t \<Rightarrow> host \<Rightarrow> VALUE \<Rightarrow> yyjson_dump_options \<Rightarrow> error + string" where
  "yyjson_ruby_write_string yyjson_mut_write_opts h obj dopts =
     (case yyjson_dump_ruby_object h obj dopts of
        Inl e \<Rightarrow> Inl e
      | Inr root \<Rightarrow>
         (case yyjson_mut_write_opts root (write_flags dopts) of
            None \<Rightarrow> Inl (GenerateError FailedToWrite)
          | Some json \<Rightarrow>
              Inr (if escape_html dopts then escape_html_entities json else json)))"

definition yyjson_dump ::
  "write_opts_t \<Rightarrow> num2int_t \<Rightarrow> host \<Rightarrow> VALUE \<Rightarrow> rb_hash option \<Rightarrow> error + string" where
  "yyjson_dump yyjson_mut_write_opts num2int h obj dump_arg =
     (let dump_arg = (case dump_arg of None \<Rightarrow> Some [] | Some hs \<Rightarrow> Some hs)
      in case yyjson_extract_dump_options num2int dump_arg of
           Inl e \<Rightarrow> Inl e
         | Inr dump_opts \<Rightarrow> yyjson_ruby_write_string yyjson_mut_write_opts h obj dump_opts)"

subsection \<open>Vocabulary for the properties of the exporter\<close>

text \<open>
  A completed call leaves the context as it found it (\<open>ctx_kept\<close>).  \<open>elements\<close>
  are the values that a container holds and that the exporter visits, in order.
\<close>

definition ctx_kept :: "dump_context \<Rightarrow> error + 'a \<times> dump_context \<Rightarrow> bool" where
  "ctx_kept ctx r = (case r of Inl e \<Rightarrow> True | Inr (n, c) \<Rightarrow> c = ctx)"

fun elements :: "host \<Rightarrow> VALUE \<Rightarrow> VALUE list" where
  "elements h (Array a) = rb_ary h a"
| "elements h (Hash a) = map snd (rb_hsh h a)"
| "elements h v = []"

text \<open>
  \<open>nested_arrays n\<close> is an object space in which the array at address 0 is the
  outermost of \<open>n\<close> arrays, each the only element of the one before; the innermost
  is empty.  \<open>nested_json k\<close> is the JSON array with \<open>k\<close> further arrays inside.
\<close>

definition nested_arrays :: "nat \<Rightarrow> host" where
  "nested_arrays n =
     \<lparr> rb_ary = (\<lambda>a. if Suc a < n then [Array (Suc a)] else []),
       rb_hsh = (\<lambda>a. []), rb_to_s = (\<lambda>v. []) \<rparr>"

fun nested_json :: "nat \<Rightarrow> yyjson_mut_val" where
  "nested_json 0 = JArr []"
| "nested_json (Suc k) = JArr [nested_json k]"

text \<open>
  An object space with an array that holds itself (address 0), a hash that holds
  an array that holds the hash (hash 0, array 1), and an array that holds the same
  acyclic array twice (addresses 2 and 3).
\<close>

definition cyclic_host :: host where
  "cyclic_host =
     \<lparr> rb_ary = (\<lambda>a. if a = 0 then [Integer 1, Array 0]
                      else if a = 1 then [Qtrue, Hash 0]
                      else if a = 2 then [Array 3, Array 3]
                      else if a = 3 then [Integer 7]
                      else []),
       rb_hsh = (\<lambda>a. [(Symbol ''name'', String ''x''), (Symbol ''items'', Array 1)]),
       rb_to_s = (\<lambda>v. []) \<rparr>"

text \<open>
  An object space whose \<^verbatim>\<open>to_s\<close> gives the text of a \<^verbatim>\<open>Time\<close>, and a context as
  \<^verbatim>\<open>yyjson_dump_ruby_object\<close> creates it for the default options.
\<close>

definition clock_host :: host where
  "clock_host =
     \<lparr> rb_ary = (\<lambda>a. []), rb_hsh = (\<lambda>a. []),
       rb_to_s = (\<lambda>v. ''2024-01-01 00:00:00 UTC'') \<rparr>"

definition compat_ctx :: dump_context where
  "compat_ctx =
     \<lparr> opts = \<lparr> pretty = False, escape_slash = False, allow_nan = True,
                 escape_html = False, indent = 2, mode = MODE_COMPAT \<rparr>,
       depth = 0, visited = {} \<rparr>"

section \<open>The interning cache (value\_builder.c)\<close>

text \<open>
  The atoms that the importer makes for object keys.  A Ruby String is an object
  with an identity (its address) and its bytes; a Symbol is determined by its name.
  \<open>objspace\<close> is the part of the host's object space that the constructors touch:
  the next free address and the table of interned strings.  \<^verbatim>\<open>rb_enc_str_new\<close>
  allocates a new String at every call; \<^verbatim>\<open>rb_enc_interned_str\<close> answers with the
  String that the table holds for the bytes and allocates only when it holds none.
  Whether \<^verbatim>\<open>HAVE_RB_ENC_INTERNED_STR\<close> is defined is decided by the build, outside
  these sources: it is a parameter of \<^verbatim>\<open>make_fstr\<close>.
\<close>

datatype rb_key = RString objid string | RSymbol string

record objspace =
  next_id :: objid
  fstring_table :: "(string \<times> objid) list"




definition CACHE_SIZE :: nat where "CACHE_SIZE = 63"
definition CACHE_MAX_LEN :: nat where "CACHE_MAX_LEN = 55"

text \<open>
  \<^verbatim>\<open>string_cache_t\<close> is the array \<^verbatim>\<open>entries\<close> with its fill count \<^verbatim>\<open>len\<close>: a list of
  entries here, the count being its length.  The key text of an entry is \<open>ptr\<close>,
  of \<open>len\<close> bytes.
\<close>

record cache_entry_t =
  ptr :: string
  len :: "32 word"
  hash :: "32 word"
  val :: rb_key

type_synonym string_cache_t = "cache_entry_t list"

definition fnv1a :: "string \<Rightarrow> 32 word" where
  "fnv1a s = fold (\<lambda>c h. (h XOR of_char c) * 16777619) s 2166136261"

text \<open>
  \<^verbatim>\<open>fast_cmp\<close> compares whole 8-byte words as unsigned numbers after a byte swap, so
  that the first byte counts most, and the bytes that remain as \<^verbatim>\<open>char\<close>, which the
  platform makes signed or unsigned: \<open>char_signed\<close> says which.  \<open>u64\<close> is the
  number that a little-endian machine reads from the bytes.  Where \<^verbatim>\<open>fast_cmp\<close> is
  \<^verbatim>\<open>memcmp\<close>, its sign is that of the model with \<open>char_signed = False\<close>, and
  \<^verbatim>\<open>cache_search\<close> reads the sign only.
\<close>

definition schar :: "char \<Rightarrow> int" where
  "schar c = (if (of_char c :: nat) < 128 then of_char c else of_char c - 256)"

definition char_less :: "bool \<Rightarrow> char \<Rightarrow> char \<Rightarrow> bool" where
  "char_less char_signed x y =
     (if char_signed then schar x < schar y else (of_char x :: nat) < of_char y)"

fun u64 :: "string \<Rightarrow> nat" where
  "u64 [] = 0"
| "u64 (c # cs) = of_char c + 256 * u64 cs"

definition bswap64 :: "string \<Rightarrow> string" where
  "bswap64 v = rev v"

function fast_cmp_tail :: "bool \<Rightarrow> string \<Rightarrow> string \<Rightarrow> nat \<Rightarrow> nat \<Rightarrow> int" where
  "fast_cmp_tail char_signed a b n i =
     (if i < n then
        (if a ! i \<noteq> b ! i then (if char_less char_signed (a ! i) (b ! i) then - 1 else 1)
         else fast_cmp_tail char_signed a b n (i + 1))
      else 0)"
  by pat_completeness auto
termination fast_cmp_tail
  by (relation "measure (\<lambda>(cs, a, b, n, i). n - i)") auto

declare fast_cmp_tail.simps [simp del]

function fast_cmp_words :: "bool \<Rightarrow> string \<Rightarrow> string \<Rightarrow> nat \<Rightarrow> nat \<Rightarrow> int" where
  "fast_cmp_words char_signed a b n i =
     (if i + 8 \<le> n then
        (let va = take 8 (drop i a); vb = take 8 (drop i b)
         in if va \<noteq> vb
            then (let va = bswap64 va; vb = bswap64 vb
                  in if u64 va < u64 vb then - 1 else 1)
            else fast_cmp_words char_signed a b n (i + 8))
      else fast_cmp_tail char_signed a b n i)"
  by pat_completeness auto
termination fast_cmp_words
  by (relation "measure (\<lambda>(cs, a, b, n, i). n - i)") auto

declare fast_cmp_words.simps [simp del]

definition fast_cmp :: "bool \<Rightarrow> string \<Rightarrow> string \<Rightarrow> nat \<Rightarrow> int" where
  "fast_cmp char_signed a b n = fast_cmp_words char_signed a b n 0"

function cache_search_loop ::
  "bool \<Rightarrow> string_cache_t \<Rightarrow> string \<Rightarrow> nat \<Rightarrow> 32 word \<Rightarrow> int \<Rightarrow> int \<Rightarrow> int" where
  "cache_search_loop char_signed c s n h lo hi =
     (if lo \<le> hi then
        (let mid = (lo + hi) div 2; e = c ! nat mid
         in if hash e < h then cache_search_loop char_signed c s n h (mid + 1) hi
            else if hash e > h then cache_search_loop char_signed c s n h lo (mid - 1)
            else if unat (len e) < n then cache_search_loop char_signed c s n h (mid + 1) hi
            else if unat (len e) > n then cache_search_loop char_signed c s n h lo (mid - 1)
            else (let cmp = fast_cmp char_signed s (ptr e) n
                  in if cmp = 0 then mid
                     else if cmp > 0 then cache_search_loop char_signed c s n h (mid + 1) hi
                     else cache_search_loop char_signed c s n h lo (mid - 1)))
      else - (lo + 1))"
  by pat_completeness auto
termination cache_search_loop
  by (relation "measure (\<lambda>(cs, c, s, n, h, lo, hi). nat (hi - lo + 1))") auto

declare cache_search_loop.simps [simp del]

definition cache_search :: "bool \<Rightarrow> string_cache_t \<Rightarrow> string \<Rightarrow> nat \<Rightarrow> 32 word \<Rightarrow> int" where
  "cache_search char_signed c s n h =
     cache_search_loop char_signed c s n h 0 (int (length c) - 1)"

text \<open>
  \<^verbatim>\<open>cache_insert\<close> returns at once when the cache is full; otherwise \<^verbatim>\<open>memmove\<close> moves
  the entries from \<open>pos\<close> on by one place and the new entry is written at \<open>pos\<close>.
\<close>

definition cache_insert ::
  "string_cache_t \<Rightarrow> int \<Rightarrow> string \<Rightarrow> nat \<Rightarrow> 32 word \<Rightarrow> rb_key \<Rightarrow> string_cache_t" where
  "cache_insert c pos s n h v =
     (if CACHE_SIZE \<le> length c then c
      else take (nat pos) c @ [\<lparr> ptr = s, len = of_nat n, hash = h, val = v \<rparr>]
           @ drop (nat pos) c)"

definition isalpha :: "char \<Rightarrow> bool" where
  "isalpha c = ((65 \<le> (of_char c :: nat) \<and> (of_char c :: nat) \<le> 90)
              \<or> (97 \<le> (of_char c :: nat) \<and> (of_char c :: nat) \<le> 122))"




text \<open>
  \<^verbatim>\<open>get_str_key\<close> and \<^verbatim>\<open>get_sym_key\<close> are the same statements around two
  constructors, \<^verbatim>\<open>make_fstr\<close> and \<^verbatim>\<open>ID2SYM(rb_intern2(...))\<close>: \<open>get_key\<close> is
  that body with the constructor \<open>mk\<close> as a parameter, so that one proof serves both.
\<close>

definition get_key ::
  "(string \<Rightarrow> objspace \<Rightarrow> rb_key \<times> objspace) \<Rightarrow> bool \<Rightarrow> string_cache_t \<Rightarrow> string \<Rightarrow>
     objspace \<Rightarrow> rb_key \<times> string_cache_t \<times> objspace" where
  "get_key mk char_signed c s sp =
     (if CACHE_MAX_LEN < length s \<or> length s = 0 \<or> \<not> isalpha (hd s)
      then (let (v, sp) = mk s sp in (v, c, sp))
      else (let h = fnv1a s;
                idx = cache_search char_signed c s (length s) h
            in if 0 \<le> idx then (val (c ! nat idx), c, sp)
               else (let (v, sp) = mk s sp
                     in (v, cache_insert c (- (idx + 1)) s (length s) h v, sp))))"

text \<open>
  \<^verbatim>\<open>build_obj\<close> resolves the keys of a document one after the other through the
  same cache, which \<^verbatim>\<open>yyjson_build_ruby_object\<close> creates empty for the call:
  \<open>get_keys\<close> is a run of lookups, in document order, with the constructor of the
  call (\<^verbatim>\<open>make_fstr\<close> for \<^verbatim>\<open>get_str_key\<close>, \<^verbatim>\<open>ID2SYM(rb_intern2(...))\<close> for
  \<^verbatim>\<open>get_sym_key\<close>).
\<close>

fun get_keys ::
  "(string \<Rightarrow> objspace \<Rightarrow> rb_key \<times> objspace) \<Rightarrow> bool \<Rightarrow> string list \<Rightarrow> string_cache_t \<Rightarrow>
     objspace \<Rightarrow> rb_key list \<times> string_cache_t \<times> objspace" where
  "get_keys mk char_signed [] c sp = ([], c, sp)"
| "get_keys mk char_signed (s # ss) c sp =
     (let (v, c, sp) = get_key mk char_signed c s sp;
          (vs, c, sp) = get_keys mk char_signed ss c sp
      in (v # vs, c, sp))"

subsection \<open>Vocabulary for the properties of the cache\<close>













section \<open>Option resolution\<close>

lemma rb_hash_aref_Nil [simp]: "rb_hash_aref [] k = Qnil"
  by (simp add: rb_hash_aref_def)

lemma rb_hash_aref_Cons [simp]:
  "rb_hash_aref ((k', v) # h) k = (if k = k' then v else rb_hash_aref h k)"
  by (simp add: rb_hash_aref_def)

text \<open>
  C6.  The parse-mode default bundles: an options hash that names only a mode
  resolves to the row of the table for that mode; no mode at all (no hash, or an
  empty one) is Compat.  \<open>freeze\<close> and \<open>max_nesting\<close> are those of the baseline in
  every row.
\<close>

theorem parse_mode_default_bundles:
  "yyjson_extract_parse_options num2int (Some [(Symbol ''mode'', Symbol ''strict'')]) =
     Inr \<lparr> symbolize_names = False, freeze = False,
           yyjson_parse_options.allow_nan = False, allow_comments = False,
           max_nesting = 100, yyjson_parse_options.mode = MODE_STRICT \<rparr>
   \<and> yyjson_extract_parse_options num2int (Some [(Symbol ''mode'', Symbol ''compat'')]) =
     Inr \<lparr> symbolize_names = False, freeze = False,
           yyjson_parse_options.allow_nan = True, allow_comments = True,
           max_nesting = 100, yyjson_parse_options.mode = MODE_COMPAT \<rparr>
   \<and> yyjson_extract_parse_options num2int (Some [(Symbol ''mode'', Symbol ''rails'')]) =
     Inr \<lparr> symbolize_names = True, freeze = False,
           yyjson_parse_options.allow_nan = True, allow_comments = True,
           max_nesting = 100, yyjson_parse_options.mode = MODE_RAILS \<rparr>
   \<and> yyjson_extract_parse_options num2int (Some [(Symbol ''mode'', Symbol ''object'')]) =
     Inr \<lparr> symbolize_names = False, freeze = False,
           yyjson_parse_options.allow_nan = True, allow_comments = True,
           max_nesting = 100, yyjson_parse_options.mode = MODE_OBJECT \<rparr>
   \<and> yyjson_extract_parse_options num2int (Some [(Symbol ''mode'', Symbol ''custom'')]) =
     Inr \<lparr> symbolize_names = False, freeze = False,
           yyjson_parse_options.allow_nan = True, allow_comments = True,
           max_nesting = 100, yyjson_parse_options.mode = MODE_CUSTOM \<rparr>
   \<and> yyjson_extract_parse_options num2int (Some []) =
     Inr \<lparr> symbolize_names = False, freeze = False,
           yyjson_parse_options.allow_nan = True, allow_comments = True,
           max_nesting = 100, yyjson_parse_options.mode = MODE_COMPAT \<rparr>
   \<and> yyjson_extract_parse_options num2int None =
     Inr \<lparr> symbolize_names = False, freeze = False,
           yyjson_parse_options.allow_nan = True, allow_comments = True,
           max_nesting = 100, yyjson_parse_options.mode = MODE_COMPAT \<rparr>"
  by (simp add: yyjson_extract_parse_options_def NIL_P_def)

subsection \<open>The fast path of yyjson\_load\<close>

lemma load_paths_agree:
  "yyjson_load parse_string num2int source arg =
     load_general_path parse_string num2int source arg"
proof (cases arg)
  case None
  then show ?thesis
    by (simp add: yyjson_load_def load_general_path_def yyjson_extract_parse_options_def
        default_parse_opts_def)
next
  case (Some hs)
  then show ?thesis
    by (cases hs)
      (simp_all add: yyjson_load_def load_general_path_def yyjson_extract_parse_options_def
        default_parse_opts_def RHASH_EMPTY_P_def NIL_P_def)
qed

text \<open>
  C10.  \<^verbatim>\<open>yyjson_load\<close> with no options hash, or with an empty one, parses with
  the pre-initialised \<open>default_parse_opts\<close>; the extractor resolves the same two
  arguments to the same options (Compat, no symbolising, no freezing, NaN and
  comments allowed, nesting 100).  So the fast path computes what the general path
  computes, for every source text and every options argument.
\<close>

theorem load_fast_path_equals_general_path:
  "yyjson_load parse_string num2int source arg =
     load_general_path parse_string num2int source arg
   \<and> yyjson_load parse_string num2int source None = parse_string source default_parse_opts
   \<and> yyjson_load parse_string num2int source (Some []) = parse_string source default_parse_opts
   \<and> yyjson_extract_parse_options num2int None = Inr default_parse_opts
   \<and> yyjson_extract_parse_options num2int (Some []) = Inr default_parse_opts
   \<and> default_parse_opts =
       \<lparr> symbolize_names = False, freeze = False,
         yyjson_parse_options.allow_nan = True, allow_comments = True,
         max_nesting = 100, yyjson_parse_options.mode = MODE_COMPAT \<rparr>"
  by (simp add: load_paths_agree load_general_path_def yyjson_extract_parse_options_def
      default_parse_opts_def NIL_P_def)

subsection \<open>Mode defaults against explicit fields\<close>

text \<open>
  C1.  The dump extractor reads \<^verbatim>\<open>allow_nan\<close> and \<^verbatim>\<open>escape_slash\<close> before it
  applies the mode, so Strict mode overwrites an explicit \<^verbatim>\<open>allow_nan: true\<close> and an
  explicit \<^verbatim>\<open>escape_slash: false\<close>, in whichever order the hash lists them.  The
  parse extractor, on the same hash, lets the explicit value win.
\<close>

theorem dump_strict_mode_overrides_explicit_fields:
  "yyjson_extract_dump_options num2int
     (Some [(Symbol ''mode'', Symbol ''strict''), (Symbol ''allow_nan'', Qtrue)]) =
     Inr \<lparr> pretty = False, escape_slash = True, allow_nan = False,
           escape_html = False, indent = 2, mode = MODE_STRICT \<rparr>
   \<and> yyjson_extract_dump_options num2int
     (Some [(Symbol ''allow_nan'', Qtrue), (Symbol ''mode'', Symbol ''strict'')]) =
     Inr \<lparr> pretty = False, escape_slash = True, allow_nan = False,
           escape_html = False, indent = 2, mode = MODE_STRICT \<rparr>
   \<and> yyjson_extract_dump_options num2int
     (Some [(Symbol ''mode'', Symbol ''strict''), (Symbol ''escape_slash'', Qfalse)]) =
     Inr \<lparr> pretty = False, escape_slash = True, allow_nan = False,
           escape_html = False, indent = 2, mode = MODE_STRICT \<rparr>
   \<and> yyjson_extract_parse_options num2int
     (Some [(Symbol ''mode'', Symbol ''strict''), (Symbol ''allow_nan'', Qtrue)]) =
     Inr \<lparr> symbolize_names = False, freeze = False,
           yyjson_parse_options.allow_nan = True, allow_comments = False,
           max_nesting = 100, yyjson_parse_options.mode = MODE_STRICT \<rparr>"
  by (simp add: yyjson_extract_dump_options_def yyjson_extract_parse_options_def NIL_P_def
      RTEST_def)

section \<open>HTML escaping\<close>

lemma copy_pass_append: "copy_pass src dst = dst @ spec_escape_html src"
  by (induction src arbitrary: dst) (simp_all add: spec_escape_html_def html_escape_byte_def)

lemma count_pass_acc: "count_pass p n = n + count_pass p 0"
proof (induction p arbitrary: n)
  case Nil
  show ?case by simp
next
  case (Cons c p)
  from Cons [of "n + 1"] Cons [of n] Cons [of 1] show ?case by simp
qed

lemma escape_length:
  "length (spec_escape_html json) = length json + 5 * count_pass json 0"
proof (induction json)
  case Nil
  show ?case by (simp add: spec_escape_html_def)
next
  case (Cons c p)
  from Cons count_pass_acc [of p 1] show ?case
    by (simp add: spec_escape_html_def html_escape_byte_def u003c_def u003e_def u0026_def
        u0027_def)
qed

lemma no_escape_identity: "count_pass json 0 = 0 \<Longrightarrow> spec_escape_html json = json"
proof (induction json)
  case Nil
  show ?case by (simp add: spec_escape_html_def)
next
  case (Cons c p)
  from Cons.prems count_pass_acc [of p 1] have c: "count_pass p 0 = 0"
    and n: "\<not> (c = CHR ''<'' \<or> c = CHR ''>'' \<or> c = CHR ''&'' \<or> c = CHR 0x27)"
    by (auto split: if_splits)
  from Cons.IH [OF c] n show ?case
    by (simp add: spec_escape_html_def html_escape_byte_def)
qed

lemma escape_html_entities_eq: "escape_html_entities json = spec_escape_html json"
  by (simp add: escape_html_entities_def Let_def copy_pass_append no_escape_identity)

text \<open>
  C5.  \<^verbatim>\<open>escape_html_entities\<close> replaces each of the four bytes by its escape
  sequence of six bytes and keeps every other byte, in order; the buffer of
  \<open>len + 5 * escape_count\<close> bytes is filled exactly.  The JSON text of the string
  \<^verbatim>\<open><a>&'\<close> becomes the escaped payload between the quotes, also through
  \<^verbatim>\<open>yyjson_ruby_write_string\<close> when \<^verbatim>\<open>escape_html\<close> is set and the engine wrote the
  string as it is.
\<close>

theorem escape_html_entities_rewrites_each_byte:
  "escape_html_entities json = spec_escape_html json
   \<and> length (escape_html_entities json) = length json + 5 * count_pass json 0
   \<and> length u003c = 6 \<and> length u003e = 6 \<and> length u0026 = 6 \<and> length u0027 = 6
   \<and> escape_html_entities (CHR 0x22 # ''<a>&'' @ [CHR 0x27, CHR 0x22]) =
       CHR 0x22 # u003c @ ''a'' @ u003e @ u0026 @ u0027 @ [CHR 0x22]
   \<and> (escape_html dopts \<and>
        yyjson_mut_write_opts (JStr (''<a>&'' @ [CHR 0x27])) (write_flags dopts) =
          Some (CHR 0x22 # ''<a>&'' @ [CHR 0x27, CHR 0x22]) \<longrightarrow>
      yyjson_ruby_write_string yyjson_mut_write_opts h (String (''<a>&'' @ [CHR 0x27])) dopts =
        Inr (CHR 0x22 # u003c @ ''a'' @ u003e @ u0026 @ u0027 @ [CHR 0x22]))"
proof -
  have len: "length (escape_html_entities json) = length json + 5 * count_pass json 0"
    by (simp add: escape_html_entities_eq escape_length)
  have six: "length u003c = 6 \<and> length u003e = 6 \<and> length u0026 = 6 \<and> length u0027 = 6"
    by (simp add: u003c_def u003e_def u0026_def u0027_def)
  have lit: "escape_html_entities (CHR 0x22 # ''<a>&'' @ [CHR 0x27, CHR 0x22]) =
      CHR 0x22 # u003c @ ''a'' @ u003e @ u0026 @ u0027 @ [CHR 0x22]"
    by (simp add: escape_html_entities_eq spec_escape_html_def html_escape_byte_def)
  have wr: "escape_html dopts \<and>
        yyjson_mut_write_opts (JStr (''<a>&'' @ [CHR 0x27])) (write_flags dopts) =
          Some (CHR 0x22 # ''<a>&'' @ [CHR 0x27, CHR 0x22]) \<longrightarrow>
      yyjson_ruby_write_string yyjson_mut_write_opts h (String (''<a>&'' @ [CHR 0x27])) dopts =
        Inr (CHR 0x22 # u003c @ ''a'' @ u003e @ u0026 @ u0027 @ [CHR 0x22])"
    using lit
    by (simp add: yyjson_ruby_write_string_def yyjson_dump_ruby_object_def dump_string_def)
  from escape_html_entities_eq len six lit wr show ?thesis by blast
qed

theorem escape_html_entities_rewrites_each_byte_witness:
  "escape_html \<lparr> pretty = False, escape_slash = False, allow_nan = True,
                  escape_html = True, indent = 2, mode = MODE_COMPAT \<rparr>
   \<and> yyjson_ruby_write_string (\<lambda>root flg. Some (CHR 0x22 # ''<a>&'' @ [CHR 0x27, CHR 0x22]))
       \<lparr> rb_ary = (\<lambda>a. []), rb_hsh = (\<lambda>a. []), rb_to_s = (\<lambda>v. []) \<rparr>
       (String (''<a>&'' @ [CHR 0x27]))
       \<lparr> pretty = False, escape_slash = False, allow_nan = True,
         escape_html = True, indent = 2, mode = MODE_COMPAT \<rparr> =
     Inr (CHR 0x22 # u003c @ ''a'' @ u003e @ u0026 @ u0027 @ [CHR 0x22])"
  using escape_html_entities_rewrites_each_byte
    [of "[]" "\<lparr> pretty = False, escape_slash = False, allow_nan = True,
                escape_html = True, indent = 2, mode = MODE_COMPAT \<rparr>"
        "\<lambda>root flg. Some (CHR 0x22 # ''<a>&'' @ [CHR 0x27, CHR 0x22])"
        "\<lparr> rb_ary = (\<lambda>a. []), rb_hsh = (\<lambda>a. []), rb_to_s = (\<lambda>v. []) \<rparr>"]
  by simp

section \<open>Float export, and values with as\_json\<close>

lemma extract_dump_strict:
  "yyjson_extract_dump_options num2int (Some [(Symbol ''mode'', Symbol ''strict'')]) =
     Inr \<lparr> pretty = False, escape_slash = True, allow_nan = False,
           escape_html = False, indent = 2, mode = MODE_STRICT \<rparr>"
  by (simp add: yyjson_extract_dump_options_def NIL_P_def)

lemma extract_dump_rails:
  "yyjson_extract_dump_options num2int (Some [(Symbol ''mode'', Symbol ''rails'')]) =
     Inr \<lparr> pretty = False, escape_slash = False, allow_nan = True,
           escape_html = True, indent = 2, mode = MODE_RAILS \<rparr>"
  by (simp add: yyjson_extract_dump_options_def NIL_P_def)

text \<open>
  C4.  \<^verbatim>\<open>dump_float\<close> raises, and then the NaN-and-Infinity \<^verbatim>\<open>GenerateError\<close>,
  exactly when the value is infinite or NaN and \<^verbatim>\<open>allow_nan\<close> is off.  Strict mode
  with no explicit \<^verbatim>\<open>allow_nan\<close> resolves to \<^verbatim>\<open>allow_nan = false\<close>, so dumping such
  a float fails; Rails mode with no explicit \<^verbatim>\<open>escape_html\<close> resolves to
  \<^verbatim>\<open>escape_html = true\<close>, so the text the engine wrote is HTML-escaped.
\<close>

theorem float_export_rejects_non_finite_unless_allowed:
  "((\<exists>e. dump_float d ctx = Inl e) = ((isinf d \<or> isnan d) \<and> \<not> allow_nan (opts ctx)))
   \<and> (dump_float d ctx = Inl e \<longrightarrow> e = GenerateError NaNNotAllowed)
   \<and> (yyjson_dump_ruby_object h (Float d) dopts =
        (if (isinf d \<or> isnan d) \<and> \<not> allow_nan dopts
         then Inl (GenerateError NaNNotAllowed) else Inr (JReal d)))
   \<and> (isinf d \<or> isnan d \<longrightarrow>
        yyjson_dump yyjson_mut_write_opts num2int h (Float d)
          (Some [(Symbol ''mode'', Symbol ''strict'')]) =
        Inl (GenerateError NaNNotAllowed))
   \<and> (yyjson_dump_ruby_object h obj
          \<lparr> pretty = False, escape_slash = False, allow_nan = True,
            escape_html = True, indent = 2, mode = MODE_RAILS \<rparr> = Inr root
        \<and> yyjson_mut_write_opts root {YYJSON_WRITE_ALLOW_INF_AND_NAN} = Some json \<longrightarrow>
        yyjson_dump yyjson_mut_write_opts num2int h obj
          (Some [(Symbol ''mode'', Symbol ''rails'')]) =
        Inr (escape_html_entities json))"
proof -
  have a: "(\<exists>e. dump_float d ctx = Inl e) = ((isinf d \<or> isnan d) \<and> \<not> allow_nan (opts ctx))"
    by (simp add: dump_float_def)
  have b: "dump_float d ctx = Inl e \<longrightarrow> e = GenerateError NaNNotAllowed"
    by (auto simp: dump_float_def split: if_splits)
  have c: "yyjson_dump_ruby_object h (Float d) dopts =
        (if (isinf d \<or> isnan d) \<and> \<not> allow_nan dopts
         then Inl (GenerateError NaNNotAllowed) else Inr (JReal d))" for dopts
    by (simp add: yyjson_dump_ruby_object_def dump_float_def)
  have s: "isinf d \<or> isnan d \<longrightarrow>
        yyjson_dump yyjson_mut_write_opts num2int h (Float d)
          (Some [(Symbol ''mode'', Symbol ''strict'')]) =
        Inl (GenerateError NaNNotAllowed)"
    by (simp add: yyjson_dump_def extract_dump_strict yyjson_ruby_write_string_def c)
  have r: "yyjson_dump_ruby_object h obj
          \<lparr> pretty = False, escape_slash = False, allow_nan = True,
            escape_html = True, indent = 2, mode = MODE_RAILS \<rparr> = Inr root
        \<and> yyjson_mut_write_opts root {YYJSON_WRITE_ALLOW_INF_AND_NAN} = Some json \<longrightarrow>
        yyjson_dump yyjson_mut_write_opts num2int h obj
          (Some [(Symbol ''mode'', Symbol ''rails'')]) =
        Inr (escape_html_entities json)"
    by (simp add: yyjson_dump_def extract_dump_rails yyjson_ruby_write_string_def
        write_flags_def)
  from a b c [of dopts] s r show ?thesis by blast
qed

theorem float_export_rejects_non_finite_unless_allowed_witness:
  "isnan (0x7FF8000000000000 :: double)
   \<and> dump_float 0x7FF8000000000000
        \<lparr> opts = \<lparr> pretty = False, escape_slash = True, allow_nan = False,
                    escape_html = False, indent = 2, mode = MODE_STRICT \<rparr>,
          depth = 0, visited = {} \<rparr> = Inl (GenerateError NaNNotAllowed)
   \<and> yyjson_dump (\<lambda>root flg. Some (CHR 0x22 # ''<script>'' @ [CHR 0x22])) (\<lambda>v. Inl TypeError)
        \<lparr> rb_ary = (\<lambda>a. []), rb_hsh = (\<lambda>a. []), rb_to_s = (\<lambda>v. []) \<rparr>
        (Float 0x7FF8000000000000) (Some [(Symbol ''mode'', Symbol ''strict'')]) =
      Inl (GenerateError NaNNotAllowed)
   \<and> yyjson_dump (\<lambda>root flg. Some (CHR 0x22 # ''<script>'' @ [CHR 0x22])) (\<lambda>v. Inl TypeError)
        \<lparr> rb_ary = (\<lambda>a. []), rb_hsh = (\<lambda>a. []), rb_to_s = (\<lambda>v. []) \<rparr>
        (String ''<script>'') (Some [(Symbol ''mode'', Symbol ''rails'')]) =
      Inr (CHR 0x22 # u003c @ ''script'' @ u003e @ [CHR 0x22])"
proof -
  have n: "isnan (0x7FF8000000000000 :: double)"
    by (simp add: isnan_def)
  have e: "escape_html_entities (CHR 0x22 # ''<script>'' @ [CHR 0x22]) =
      CHR 0x22 # u003c @ ''script'' @ u003e @ [CHR 0x22]"
    by (simp add: escape_html_entities_def u003c_def u003e_def)
  have d: "yyjson_dump_ruby_object
        \<lparr> rb_ary = (\<lambda>a. []), rb_hsh = (\<lambda>a. []), rb_to_s = (\<lambda>v. []) \<rparr> (String ''<script>'')
        \<lparr> pretty = False, escape_slash = False, allow_nan = True,
          escape_html = True, indent = 2, mode = MODE_RAILS \<rparr> = Inr (JStr ''<script>'')"
    by (simp add: yyjson_dump_ruby_object_def dump_string_def)
  show ?thesis
    using n e d
      float_export_rejects_non_finite_unless_allowed
        [of "0x7FF8000000000000"
            "\<lparr> opts = \<lparr> pretty = False, escape_slash = True, allow_nan = False,
                        escape_html = False, indent = 2, mode = MODE_STRICT \<rparr>,
               depth = 0, visited = {} \<rparr>"
            "GenerateError NaNNotAllowed"
            "\<lparr> rb_ary = (\<lambda>a. []), rb_hsh = (\<lambda>a. []), rb_to_s = (\<lambda>v. []) \<rparr>"
            _
            "\<lambda>root flg. Some (CHR 0x22 # ''<script>'' @ [CHR 0x22])"
            "\<lambda>v. Inl TypeError"
            "String ''<script>''" "JStr ''<script>''"
            "CHR 0x22 # ''<script>'' @ [CHR 0x22]"]
    by (simp add: dump_float_def)
qed

text \<open>
  C9 as amended.  \<^verbatim>\<open>dump_ruby_object\<close> tests \<^verbatim>\<open>is_time_like\<close> before it calls
  \<^verbatim>\<open>try_as_json\<close>.  For an opaque object that is not a \<^verbatim>\<open>Time\<close>, \<^verbatim>\<open>Date\<close> or
  \<^verbatim>\<open>DateTime\<close> and whose \<^verbatim>\<open>as_json\<close> returns \<^verbatim>\<open>nil\<close>, \<^verbatim>\<open>try_as_json\<close> answers
  \<^verbatim>\<open>nil\<close>, which is also its answer for an object without \<^verbatim>\<open>as_json\<close>: the
  exporter emits the string that \<^verbatim>\<open>to_s\<close> gives, not JSON null.  A time-like object
  is exported by \<^verbatim>\<open>dump_time\<close> whatever its \<^verbatim>\<open>as_json\<close> returns: its
  \<^verbatim>\<open>iso8601\<close> string, else its \<^verbatim>\<open>xmlschema\<close> string, else its \<^verbatim>\<open>to_s\<close> string, and
  JSON null in no case.
\<close>

theorem as_json_nil_exports_through_to_s:
  "(\<not> t \<longrightarrow>
       try_as_json (Object t i x (Some Qnil)) ctx = Qnil
     \<and> try_as_json (Object t i x None) ctx = Qnil
     \<and> dump_ruby_object h (Object t i x (Some Qnil)) ctx =
         Inr (dump_string (rb_to_s h (Object t i x (Some Qnil))), ctx)
     \<and> dump_ruby_object h (Object t i x None) ctx =
         Inr (dump_string (rb_to_s h (Object t i x None)), ctx)
     \<and> dump_ruby_object h (Object t i x (Some Qnil)) ctx \<noteq> Inr (JNull, ctx)
     \<and> yyjson_dump_ruby_object h (Object t i x (Some Qnil)) dopts =
         Inr (JStr (rb_to_s h (Object t i x (Some Qnil)))))
   \<and> (t \<longrightarrow>
       dump_ruby_object h (Object t i x aj) ctx = Inr (dump_time h (Object t i x aj), ctx)
     \<and> dump_time h (Object t (Some str) x aj) = JStr str
     \<and> dump_time h (Object t None (Some str) aj) = JStr str
     \<and> dump_time h (Object t None None aj) = JStr (rb_to_s h (Object t None None aj))
     \<and> dump_ruby_object h (Object t i x aj) ctx \<noteq> Inr (JNull, ctx))"
proof -
  have a: "dump_time h (Object b i x aj) \<noteq> JNull" for b
    by (cases i; cases x) (simp_all add: dump_string_def)
  show ?thesis
    using a
    by (simp add: try_as_json_def NIL_P_def dump_string_def yyjson_dump_ruby_object_def)
qed

theorem as_json_nil_exports_through_to_s_witness:
  "dump_ruby_object
     \<lparr> rb_ary = (\<lambda>a. []), rb_hsh = (\<lambda>a. []), rb_to_s = (\<lambda>v. ''#<Point>'') \<rparr>
     (Object False None None (Some Qnil)) compat_ctx = Inr (JStr ''#<Point>'', compat_ctx)
   \<and> dump_ruby_object clock_host (Object True None (Some ''2024-01-01T00:00:00+00:00'') None)
       compat_ctx = Inr (JStr ''2024-01-01T00:00:00+00:00'', compat_ctx)"
  using as_json_nil_exports_through_to_s
    [of False None None compat_ctx
        "\<lparr> rb_ary = (\<lambda>a. []), rb_hsh = (\<lambda>a. []), rb_to_s = (\<lambda>v. ''#<Point>'') \<rparr>"]
    as_json_nil_exports_through_to_s
    [of True None "Some ''2024-01-01T00:00:00+00:00''" compat_ctx clock_host _ None]
  by (simp add: dump_string_def NIL_P_def try_as_json_def)

theorem time_like_as_json_nil_counterexample:
  "is_basic_json_type (Object True (Some ''2024-01-01T00:00:00Z'') None (Some Qnil)) = False
   \<and> as_json (Object True (Some ''2024-01-01T00:00:00Z'') None (Some Qnil)) = Some Qnil
   \<and> rb_to_s clock_host (Object True (Some ''2024-01-01T00:00:00Z'') None (Some Qnil)) =
       ''2024-01-01 00:00:00 UTC''
   \<and> dump_ruby_object clock_host (Object True (Some ''2024-01-01T00:00:00Z'') None (Some Qnil))
       compat_ctx = Inr (JStr ''2024-01-01T00:00:00Z'', compat_ctx)
   \<and> dump_ruby_object clock_host (Object True (Some ''2024-01-01T00:00:00Z'') None (Some Qnil))
       compat_ctx \<noteq>
       Inr (dump_string
              (rb_to_s clock_host (Object True (Some ''2024-01-01T00:00:00Z'') None (Some Qnil))),
            compat_ctx)"
  by (simp add: clock_host_def dump_string_def)

section \<open>Cycle detection and the nesting limit\<close>

lemma ctx_kept_simps [simp]:
  "ctx_kept ctx (Inl e) = True"
  "ctx_kept ctx (Inr (n, c)) = (c = ctx)"
  by (simp_all add: ctx_kept_def)

lemma check_unmark:
  "check_circular_reference v ctx = Inr b \<Longrightarrow>
     unmark_visited v (b\<lparr> depth := depth b + 1 - 1 \<rparr>) = ctx"
  by (auto simp: check_circular_reference_def unmark_visited_def split: if_splits)

lemma dump_ctx_kept:
  "ctx_kept ctx (dump_ruby_object h v ctx)"
  "ctx_kept ctx (dump_array h a ctx)"
  "ctx_kept ctx (dump_array_loop h items arr ctx)"
  "ctx_kept ctx (dump_hash h hs ctx)"
  "ctx_kept ctx (rb_hash_foreach h ps ob ctx)"
  "ctx_kept ctx (dump_hash_iter h k vl ob ctx)"
proof (induct h v ctx and h a ctx and h items arr ctx and h hs ctx and h ps ob ctx
    and h k vl ob ctx
    rule: dump_ruby_object_dump_array_dump_array_loop_dump_hash_rb_hash_foreach_dump_hash_iter.induct)
  case (4 h n ctx)
  show ?case by (simp split: sum.split)
next
  case (5 h d ctx)
  show ?case by (simp split: sum.split)
next
  case (10 h t i x aj ctx)
  then show ?case by (simp add: Let_def)
next
  case (11 h ary ctx)
  show ?case
  proof (cases "check_circular_reference ary ctx")
    case (Inl e)
    then show ?thesis by simp
  next
    case (Inr b)
    show ?thesis
    proof (cases "dump_array_loop h (case ary of Array a \<Rightarrow> rb_ary h a | _ \<Rightarrow> []) []
        (b\<lparr> depth := depth b + 1 \<rparr>)")
      case (Inl e)
      with Inr show ?thesis by simp
    next
      case loop: (Inr p)
      obtain r c where p: "p = (r, c)" by (cases p)
      from 11 [OF Inr] loop p have "c = b\<lparr> depth := depth b + 1 \<rparr>" by simp
      with Inr loop p check_unmark [OF Inr] show ?thesis by simp
    qed
  qed
next
  case (13 h item items arr ctx)
  show ?case
  proof (cases "dump_ruby_object h item ctx")
    case (Inl e)
    then show ?thesis by simp
  next
    case (Inr b)
    obtain x y where b: "b = (x, y)" by (cases b)
    from 13(1) Inr b have y: "y = ctx" by simp
    from 13(2) [OF Inr b [symmetric]] y Inr b show ?thesis by simp
  qed
next
  case (14 h hs ctx)
  show ?case
  proof (cases "check_circular_reference hs ctx")
    case (Inl e)
    then show ?thesis by simp
  next
    case (Inr b)
    show ?thesis
    proof (cases "rb_hash_foreach h (case hs of Hash a \<Rightarrow> rb_hsh h a | _ \<Rightarrow> []) []
        (b\<lparr> depth := depth b + 1 \<rparr>)")
      case (Inl e)
      with Inr show ?thesis by simp
    next
      case loop: (Inr p)
      obtain r c where p: "p = (r, c)" by (cases p)
      from 14 [OF Inr] loop p have "c = b\<lparr> depth := depth b + 1 \<rparr>" by simp
      with Inr loop p check_unmark [OF Inr] show ?thesis by simp
    qed
  qed
next
  case (16 h key vl rest ob ctx)
  show ?case
  proof (cases "dump_hash_iter h key vl ob ctx")
    case (Inl e)
    then show ?thesis by simp
  next
    case (Inr b)
    obtain x y where b: "b = (x, y)" by (cases b)
    from 16(1) Inr b have y: "y = ctx" by simp
    from 16(2) [OF Inr b [symmetric]] y Inr b show ?thesis by simp
  qed
next
  case (17 h key vl ob ctx)
  from 17 [OF refl] show ?case
    by (cases "dump_ruby_object h vl ctx") (auto simp: Let_def)
qed simp_all

lemma dump_ruby_object_ctx:
  "dump_ruby_object h v ctx = Inr (n, c) \<Longrightarrow> c = ctx"
  using dump_ctx_kept(1) [of ctx h v] by simp


lemma dump_array_loop_ok:
  "list_all2 (\<lambda>x n. dump_ruby_object h x ctx = Inr (n, ctx)) xs ns \<Longrightarrow>
     dump_array_loop h xs arr ctx = Inr (arr @ ns, ctx)"
  by (induction xs ns arbitrary: arr rule: list_all2_induct) simp_all

lemma exports_list:
  "list_all (\<lambda>x. \<not> isl (dump_ruby_object h x ctx)) xs \<Longrightarrow>
     \<exists>ns. list_all2 (\<lambda>x n. dump_ruby_object h x ctx = Inr (n, ctx)) xs ns"
proof (induction xs)
  case Nil
  show ?case by simp
next
  case (Cons x xs)
  from Cons.prems obtain p where p: "dump_ruby_object h x ctx = Inr p"
    by (cases "dump_ruby_object h x ctx") auto
  obtain n c where "p = (n, c)" by (cases p)
  with p dump_ruby_object_ctx [of h x ctx n c] have x: "dump_ruby_object h x ctx = Inr (n, ctx)"
    by simp
  from Cons obtain ns where "list_all2 (\<lambda>x n. dump_ruby_object h x ctx = Inr (n, ctx)) xs ns"
    by auto
  with x have "list_all2 (\<lambda>x n. dump_ruby_object h x ctx = Inr (n, ctx)) (x # xs) (n # ns)"
    by simp
  then show ?case by blast
qed

lemma dump_array_loop_error:
  assumes "list_all (\<lambda>x. \<not> isl (dump_ruby_object h x ctx)) pre"
    and "dump_ruby_object h w ctx = Inl e"
  shows "dump_array_loop h (pre @ w # post) arr ctx = Inl e"
  using assms
proof (induction pre arbitrary: arr)
  case Nil
  then show ?case by simp
next
  case (Cons x pre)
  from Cons.prems(1) obtain p where p: "dump_ruby_object h x ctx = Inr p"
    by (cases "dump_ruby_object h x ctx") auto
  obtain n c where pc: "p = (n, c)" by (cases p)
  with p dump_ruby_object_ctx [of h x ctx n c] have "c = ctx" by simp
  with p pc Cons show ?case by simp
qed

lemma rb_hash_foreach_error:
  assumes "list_all (\<lambda>x. \<not> isl (dump_ruby_object h x ctx)) (map snd pre)"
    and "dump_ruby_object h w ctx = Inl e"
  shows "rb_hash_foreach h (pre @ (k, w) # post) ob ctx = Inl e"
  using assms
proof (induction pre arbitrary: ob)
  case Nil
  then show ?case by simp
next
  case (Cons kx pre)
  obtain k' x where kx: "kx = (k', x)" by (cases kx)
  from Cons.prems(1) kx obtain p where p: "dump_ruby_object h x ctx = Inr p"
    by (cases "dump_ruby_object h x ctx") auto
  obtain n c where pc: "p = (n, c)" by (cases p)
  with p dump_ruby_object_ctx [of h x ctx n c] have "c = ctx" by simp
  with p pc kx Cons show ?case by simp
qed

lemma container_error:
  assumes v: "is_collection v"
    and chk: "check_circular_reference v ctx = Inr c1"
    and els: "elements h v = pre @ w # post"
    and pre: "list_all (\<lambda>x. \<not> isl (dump_ruby_object h x (c1\<lparr> depth := depth c1 + 1 \<rparr>))) pre"
    and w: "dump_ruby_object h w (c1\<lparr> depth := depth c1 + 1 \<rparr>) = Inl e"
  shows "dump_ruby_object h v ctx = Inl e"
proof (cases v)
  case (Array a)
  with els have "rb_ary h a = pre @ w # post" by simp
  with Array chk dump_array_loop_error [OF pre w, of post "[]"] show ?thesis by simp
next
  case (Hash a)
  with els have "map snd (rb_hsh h a) = pre @ w # post" by simp
  then obtain ps k qs where ps: "rb_hsh h a = ps @ (k, w) # qs" and "map snd ps = pre"
    by (auto simp: map_eq_append_conv Cons_eq_map_conv)
  with pre have "list_all (\<lambda>x. \<not> isl (dump_ruby_object h x (c1\<lparr> depth := depth c1 + 1 \<rparr>)))
      (map snd ps)" by simp
  from rb_hash_foreach_error [OF this w, of k qs "[]"] Hash chk ps show ?thesis by simp
qed (use v in simp_all)

lemma reentry_is_circular:
  "is_collection v \<Longrightarrow> v \<in> visited ctx \<Longrightarrow> depth ctx \<le> 100 \<Longrightarrow>
     dump_ruby_object h v ctx = Inl (GenerateError CircularReference)"
  by (cases v) (simp_all add: check_circular_reference_def MAX_NESTING_DEPTH_def)


text \<open>
  C3.  A container that is entered while it is on the active path is rejected with
  the circular-reference error (first conjunct); a completed export leaves the
  active path and the depth as they were, every identity added on entry having
  been removed on exit (second).  Hence a container \<open>v\<close> that holds itself, or
  holds a container \<open>w\<close> that holds \<open>v\<close>, fails with the circular-reference error
  once the elements in front of the back reference have been exported (third and
  fourth), and an array or hash that holds the same exportable value \<open>w\<close> twice
  exports it twice (fifth and sixth).
\<close>

theorem cycles_rejected_shared_siblings_exported:
  "(is_collection v \<and> v \<in> visited ctx \<and> depth ctx \<le> 100 \<longrightarrow>
      dump_ruby_object h v ctx = Inl (GenerateError CircularReference))
   \<and> (dump_ruby_object h v ctx = Inr (n, c) \<longrightarrow> c = ctx)
   \<and> (is_collection v \<and> elements h v = pre @ v # post
        \<and> list_all (\<lambda>x. \<not> isl (dump_ruby_object h x
                     \<lparr> opts = dopts, depth = 1, visited = {v} \<rparr>)) pre \<longrightarrow>
      yyjson_dump_ruby_object h v dopts = Inl (GenerateError CircularReference))
   \<and> (is_collection v \<and> is_collection w \<and> elements h v = pre @ w # post
        \<and> list_all (\<lambda>x. \<not> isl (dump_ruby_object h x
                     \<lparr> opts = dopts, depth = 1, visited = {v} \<rparr>)) pre
        \<and> elements h w = pre' @ v # post'
        \<and> list_all (\<lambda>x. \<not> isl (dump_ruby_object h x
                     \<lparr> opts = dopts, depth = 2, visited = {v, w} \<rparr>)) pre' \<longrightarrow>
      yyjson_dump_ruby_object h v dopts = Inl (GenerateError CircularReference))
   \<and> (rb_ary h a = [w, w]
        \<and> dump_ruby_object h w \<lparr> opts = dopts, depth = 1, visited = {Array a} \<rparr> = Inr (n, c) \<longrightarrow>
      yyjson_dump_ruby_object h (Array a) dopts = Inr (JArr [n, n]))
   \<and> (rb_hsh h a = [(k1, w), (k2, w)]
        \<and> dump_ruby_object h w \<lparr> opts = dopts, depth = 1, visited = {Hash a} \<rparr> = Inr (n, c) \<longrightarrow>
      yyjson_dump_ruby_object h (Hash a) dopts =
        Inr (JObj [(hash_key_str h k1, n), (hash_key_str h k2, n)]))"
proof -
  let ?c0 = "\<lparr> opts = dopts, depth = 0, visited = {} \<rparr>"
  let ?c1 = "\<lambda>v. \<lparr> opts = dopts, depth = 1, visited = {v} \<rparr>"
  have chk0: "is_collection u \<Longrightarrow>
      check_circular_reference u ?c0 = Inr \<lparr> opts = dopts, depth = 0, visited = {u} \<rparr>" for u
    by (simp add: check_circular_reference_def MAX_NESTING_DEPTH_def)
  have direct: "yyjson_dump_ruby_object h v dopts = Inl (GenerateError CircularReference)"
    if v: "is_collection v" and els: "elements h v = pre @ v # post"
      and pre: "list_all (\<lambda>x. \<not> isl (dump_ruby_object h x (?c1 v))) pre"
  proof -
    have "dump_ruby_object h v (?c1 v) = Inl (GenerateError CircularReference)"
      using v by (simp add: reentry_is_circular)
    with container_error [OF v chk0 [OF v] els] pre
    have "dump_ruby_object h v ?c0 = Inl (GenerateError CircularReference)" by simp
    then show ?thesis by (simp add: yyjson_dump_ruby_object_def)
  qed
  have indirect: "yyjson_dump_ruby_object h v dopts = Inl (GenerateError CircularReference)"
    if v: "is_collection v" and w: "is_collection w"
      and els: "elements h v = pre @ w # post"
      and pre: "list_all (\<lambda>x. \<not> isl (dump_ruby_object h x (?c1 v))) pre"
      and els': "elements h w = pre' @ v # post'"
      and pre': "list_all (\<lambda>x. \<not> isl (dump_ruby_object h x
                     \<lparr> opts = dopts, depth = 2, visited = {v, w} \<rparr>)) pre'"
  proof -
    have inner: "dump_ruby_object h w (?c1 v) = Inl (GenerateError CircularReference)"
    proof (cases "w = v")
      case True
      with v show ?thesis by (simp add: reentry_is_circular)
    next
      case False
      with w have chk1: "check_circular_reference w (?c1 v) =
          Inr \<lparr> opts = dopts, depth = 1, visited = {v, w} \<rparr>"
        by (auto simp: check_circular_reference_def MAX_NESTING_DEPTH_def)
      have "dump_ruby_object h v \<lparr> opts = dopts, depth = 2, visited = {v, w} \<rparr> =
          Inl (GenerateError CircularReference)"
        using v by (simp add: reentry_is_circular)
      with container_error [OF w chk1 els'] pre' show ?thesis by simp
    qed
    with container_error [OF v chk0 [OF v] els] pre
    have "dump_ruby_object h v ?c0 = Inl (GenerateError CircularReference)" by simp
    then show ?thesis by (simp add: yyjson_dump_ruby_object_def)
  qed
  have sib_a: "yyjson_dump_ruby_object h (Array a) dopts = Inr (JArr [n, n])"
    if "rb_ary h a = [w, w]" and d: "dump_ruby_object h w (?c1 (Array a)) = Inr (n, c)"
  proof -
    from d have "c = ?c1 (Array a)" by (rule dump_ruby_object_ctx)
    with that show ?thesis
      by (simp add: yyjson_dump_ruby_object_def check_circular_reference_def
          MAX_NESTING_DEPTH_def unmark_visited_def)
  qed
  have sib_h: "yyjson_dump_ruby_object h (Hash a) dopts =
        Inr (JObj [(hash_key_str h k1, n), (hash_key_str h k2, n)])"
    if "rb_hsh h a = [(k1, w), (k2, w)]" and d: "dump_ruby_object h w (?c1 (Hash a)) = Inr (n, c)"
  proof -
    from d have "c = ?c1 (Hash a)" by (rule dump_ruby_object_ctx)
    with that show ?thesis
      by (simp add: yyjson_dump_ruby_object_def check_circular_reference_def
          MAX_NESTING_DEPTH_def unmark_visited_def Let_def)
  qed
  from reentry_is_circular [of v ctx h] dump_ruby_object_ctx [of h v ctx n c]
    direct indirect sib_a sib_h
  show ?thesis by blast
qed


theorem cycles_rejected_shared_siblings_exported_witness:
  "yyjson_dump_ruby_object cyclic_host (Array 0)
      \<lparr> pretty = False, escape_slash = False, allow_nan = True,
        escape_html = False, indent = 2, mode = MODE_COMPAT \<rparr> =
     Inl (GenerateError CircularReference)
   \<and> yyjson_dump_ruby_object cyclic_host (Hash 0)
      \<lparr> pretty = False, escape_slash = False, allow_nan = True,
        escape_html = False, indent = 2, mode = MODE_COMPAT \<rparr> =
     Inl (GenerateError CircularReference)
   \<and> yyjson_dump_ruby_object cyclic_host (Array 2)
      \<lparr> pretty = False, escape_slash = False, allow_nan = True,
        escape_html = False, indent = 2, mode = MODE_COMPAT \<rparr> =
     Inr (JArr [JArr [JSint 7], JArr [JSint 7]])"
proof -
  let ?d = "\<lparr> pretty = False, escape_slash = False, allow_nan = True,
        escape_html = False, indent = 2, mode = MODE_COMPAT \<rparr>"
  have i: "dump_ruby_object cyclic_host (Integer k) cx = Inr (JSint k, cx)"
    if "- (2 ^ 62) \<le> k" "k < 2 ^ 62" for k cx
    using that by (simp add: dump_integer_def)
  have three: "dump_ruby_object cyclic_host (Array 3)
      \<lparr> opts = ?d, depth = 1, visited = {Array 2} \<rparr> =
      Inr (JArr [JSint 7], \<lparr> opts = ?d, depth = 1, visited = {Array 2} \<rparr>)"
    by (simp add: cyclic_host_def check_circular_reference_def MAX_NESTING_DEPTH_def
        unmark_visited_def dump_integer_def)
  note t = cycles_rejected_shared_siblings_exported
  from t [where h = cyclic_host and v = "Array 0" and pre = "[Integer 1]" and post = "[]"
      and dopts = ?d]
  have a: "yyjson_dump_ruby_object cyclic_host (Array 0) ?d =
      Inl (GenerateError CircularReference)"
    by (simp add: cyclic_host_def dump_integer_def)
  from t [where h = cyclic_host and v = "Hash 0" and w = "Array 1"
      and pre = "[String ''x'']" and post = "[]" and pre' = "[Qtrue]" and post' = "[]"
      and dopts = ?d]
  have b: "yyjson_dump_ruby_object cyclic_host (Hash 0) ?d =
      Inl (GenerateError CircularReference)"
    by (simp add: cyclic_host_def dump_string_def)
  from t [where h = cyclic_host and a = 2 and w = "Array 3" and dopts = ?d
      and n = "JArr [JSint 7]" and c = "\<lparr> opts = ?d, depth = 1, visited = {Array 2} \<rparr>"] three
  have c: "yyjson_dump_ruby_object cyclic_host (Array 2) ?d =
      Inr (JArr [JArr [JSint 7], JArr [JSint 7]])"
    by (simp add: cyclic_host_def)
  from a b c show ?thesis by simp
qed

subsection \<open>The nesting limit\<close>

lemma too_deep_on_entry:
  "is_collection v \<Longrightarrow> 100 < depth ctx \<Longrightarrow>
     dump_ruby_object h v ctx = Inl (GenerateError (NestingTooDeep (depth ctx)))"
  by (cases v) (simp_all add: check_circular_reference_def MAX_NESTING_DEPTH_def)

lemma visited_below_Suc: "Array ` {..<Suc i} = insert (Array i) (Array ` {..<i})"
  by (simp add: lessThan_Suc)

lemma nested_arrays_export:
  "i + k + 1 = n \<Longrightarrow> n \<le> 101 \<Longrightarrow>
     dump_ruby_object (nested_arrays n) (Array i)
       \<lparr> opts = dopts, depth = int i, visited = Array ` {..<i} \<rparr> =
     Inr (nested_json k, \<lparr> opts = dopts, depth = int i, visited = Array ` {..<i} \<rparr>)"
proof (induction k arbitrary: i)
  case 0
  then have "rb_ary (nested_arrays n) i = []" by (simp add: nested_arrays_def)
  with 0 show ?case
    by (auto simp: check_circular_reference_def MAX_NESTING_DEPTH_def unmark_visited_def)
next
  case (Suc k)
  then have els: "rb_ary (nested_arrays n) i = [Array (Suc i)]"
    by (simp add: nested_arrays_def)
  from Suc.prems have le: "int i \<le> 100" by simp
  have notin: "Array i \<notin> Array ` {..<i}" by auto
  from Suc.IH [of "Suc i"] Suc.prems
  have inner: "dump_ruby_object (nested_arrays n) (Array (Suc i))
       \<lparr> opts = dopts, depth = int i + 1, visited = insert (Array i) (Array ` {..<i}) \<rparr> =
     Inr (nested_json k,
       \<lparr> opts = dopts, depth = int i + 1, visited = insert (Array i) (Array ` {..<i}) \<rparr>)"
    by (simp add: visited_below_Suc add.commute)
  have chk: "check_circular_reference (Array i)
       \<lparr> opts = dopts, depth = int i, visited = Array ` {..<i} \<rparr> =
     Inr \<lparr> opts = dopts, depth = int i, visited = insert (Array i) (Array ` {..<i}) \<rparr>"
    using le notin by (simp add: check_circular_reference_def MAX_NESTING_DEPTH_def)
  have un: "insert (Array i) (Array ` {..<i}) - {Array i} = Array ` {..<i}"
    using notin by auto
  show ?case
    apply (simp only: dump_ruby_object.simps dump_array.simps chk sum.case VALUE.case els)
    apply (simp only: dump_array_loop.simps dump_context.simps inner sum.case prod.case
        append_Nil unmark_visited_def is_collection.simps un)
    apply simp
    done
qed

lemma nested_arrays_too_deep:
  "102 \<le> n \<Longrightarrow> i + k = 101 \<Longrightarrow>
     dump_ruby_object (nested_arrays n) (Array i)
       \<lparr> opts = dopts, depth = int i, visited = Array ` {..<i} \<rparr> =
     Inl (GenerateError (NestingTooDeep 101))"
proof (induction k arbitrary: i)
  case 0
  then show ?case
    by (simp add: check_circular_reference_def MAX_NESTING_DEPTH_def)
next
  case (Suc k)
  then have els: "rb_ary (nested_arrays n) i = [Array (Suc i)]"
    by (simp add: nested_arrays_def)
  from Suc.prems have le: "int i \<le> 100" by simp
  have notin: "Array i \<notin> Array ` {..<i}" by auto
  from Suc.IH [of "Suc i"] Suc.prems
  have inner: "dump_ruby_object (nested_arrays n) (Array (Suc i))
       \<lparr> opts = dopts, depth = int i + 1, visited = insert (Array i) (Array ` {..<i}) \<rparr> =
     Inl (GenerateError (NestingTooDeep 101))"
    by (simp add: visited_below_Suc add.commute)
  have chk: "check_circular_reference (Array i)
       \<lparr> opts = dopts, depth = int i, visited = Array ` {..<i} \<rparr> =
     Inr \<lparr> opts = dopts, depth = int i, visited = insert (Array i) (Array ` {..<i}) \<rparr>"
    using le notin by (simp add: check_circular_reference_def MAX_NESTING_DEPTH_def)
  show ?case
    apply (simp only: dump_ruby_object.simps dump_array.simps chk sum.case VALUE.case els)
    apply (simp only: dump_array_loop.simps dump_context.simps inner sum.case)
    done
qed

text \<open>
  C2.  The depth is tested before it is incremented, against \<open>depth > 100\<close>: the
  innermost of 101 nested arrays is entered at depth 100 and passes.  So 100 levels
  export, 101 levels export as well, and only 102 levels fail, with the message
  for a nesting of 101.
\<close>

theorem nesting_limit_is_101_levels:
  "yyjson_dump_ruby_object (nested_arrays 100) (Array 0) dopts = Inr (nested_json 99)
   \<and> yyjson_dump_ruby_object (nested_arrays 101) (Array 0) dopts = Inr (nested_json 100)
   \<and> yyjson_dump_ruby_object (nested_arrays 102) (Array 0) dopts =
       Inl (GenerateError (NestingTooDeep 101))"
  using nested_arrays_export [of 0 99 100 dopts] nested_arrays_export [of 0 100 101 dopts]
    nested_arrays_too_deep [of 102 0 101 dopts]
  by (simp add: yyjson_dump_ruby_object_def)

section \<open>The interning cache\<close>

subsection \<open>The two lookups are one body\<close>



subsection \<open>Lexicographic order on lists of equal length\<close>


lemma less_irrefl_list: "\<not> (xs :: nat list) < xs"
  by simp

subsection \<open>The comparison of bytes and of 8-byte words\<close>













subsection \<open>fast\_cmp is the three-way comparison of the ranks\<close>















































lemma get_keys_Cons:
  "get_keys mk cs (s # ss) c sp =
     (fst (get_key mk cs c s sp)
        # fst (get_keys mk cs ss (fst (snd (get_key mk cs c s sp))) (snd (snd (get_key mk cs c s sp)))),
      snd (get_keys mk cs ss (fst (snd (get_key mk cs c s sp))) (snd (snd (get_key mk cs c s sp)))))"
  by (simp add: Let_def split: prod.split)





























lemma get_keys_append_state:
  "snd (get_keys mk cs (xs @ ys) c sp) =
     snd (get_keys mk cs ys (fst (snd (get_keys mk cs xs c sp)))
              (snd (snd (get_keys mk cs xs c sp))))"
proof (induction xs arbitrary: c sp)
  case Nil
  show ?case by simp
next
  case (Cons x xs)
  show ?case by (simp only: append_Cons get_keys_Cons fst_conv snd_conv Cons.IH)
qed









end
